theory Spec2Isabelle
  imports Complex_Main
begin

section \<open>Data model (types/index.ts)\<close>

text \<open>
  A \<open>Date\<close> is its time value: integral milliseconds since the epoch (\<open>getTime()\<close>).
  A \<open>number\<close> that need not be whole (the hour budgets \<open>responseTimeHours\<close> and
  \<open>resolutionTimeHours\<close>, the remaining times) is an exact rational; a \<open>number\<close> or
  \<open>Date\<close> the source computes is an \<open>option\<close>, with \<open>None\<close> for \<open>NaN\<close> and for an
  \<open>Invalid Date\<close>. The timestamps stored with a ticket are valid dates.
  \<open>escalationLevel\<close> starts at 0 and is only ever incremented, so it is a natural
  number.
  The SLA configurations are read from an untyped JSON collection; \<open>workingHours\<close> is
  \<open>None\<close> for a policy that has no working-hours configuration.
  Fields that no modelled operation reads (priority, source, guest details, keywords,
  attachments, note and response uuids) are left out.
\<close>

datatype TicketStatus = OPEN | IN_PROGRESS | ON_HOLD | ESCALATED | RESOLVED | CLOSED | CANCELLED

datatype TicketCategory =
  COMPLAINT | SERVICE_REQUEST | INQUIRY | HOUSEKEEPING | FOOD_BEVERAGE | FRONT_DESK
  | MAINTENANCE | IT_SUPPORT

datatype SentTo = Guest | InternalRecipient

datatype Channel = Email | Whatsapp | Sms | InternalChannel

record InternalNote =
  note_content :: string
  addedBy :: string
  addedAt :: int

record TicketResponse =
  content :: string
  sentBy :: string
  sentTo :: SentTo
  channel :: Channel
  isAutomated :: bool
  sentAt :: int

record DaySchedule =
  isWorkingDay :: bool
  startTime :: "string option"
  endTime :: "string option"

record WorkingHours =
  monday :: DaySchedule
  tuesday :: DaySchedule
  wednesday :: DaySchedule
  thursday :: DaySchedule
  friday :: DaySchedule
  saturday :: DaySchedule
  sunday :: DaySchedule

record SLAConfig =
  responseTimeHours :: rat
  resolutionTimeHours :: rat
  workingHours :: "WorkingHours option"
  holidays :: "int list"
  isPaused :: bool
  pauseReason :: "string option"
  pausedAt :: "int option"
  resumedAt :: "int option"

record EscalationRecord =
  level :: nat
  escalatedTo :: string
  escalatedBy :: string
  reason :: string
  escalatedAt :: int

record Ticket =
  ticketId :: string
  title :: string
  description :: string
  category :: TicketCategory
  status :: TicketStatus
  assignedTo :: "string option"
  department :: string
  internalNotes :: "InternalNote list"
  responses :: "TicketResponse list"
  slaConfig :: SLAConfig
  escalationHistory :: "EscalationRecord list"
  isEscalated :: bool
  escalationLevel :: nat
  createdAt :: int
  updatedAt :: int
  resolvedAt :: "int option"
  closedAt :: "int option"

section \<open>Date arithmetic used by \<open>addWorkingHours\<close>\<close>

text \<open>
  \<open>Date.prototype.getHours\<close> and \<open>setHours\<close> after ECMA-262. The time value is moved to
  local time with the zone offset in force at that instant, split into day and time
  within the day, the hour field is replaced by the integral part of the argument
  (\<open>ToIntegerOrInfinity\<close> in \<open>MakeTime\<close>), the parts are put together again and the
  local time is moved back with the offset that applies to that local time; a result
  outside the range of \<open>Date\<close> is the invalid date (\<open>TimeClip\<close>).

  The time zone of the host is a parameter: \<open>utcOffset\<close> is the offset in milliseconds
  in force at an instant (\<open>LocalTZA(t, true)\<close>), \<open>localOffset\<close> the offset by which a local
  time is read (\<open>LocalTZA(t, false)\<close>).
\<close>

record TimeZone =
  utcOffset :: "int \<Rightarrow> int"
  localOffset :: "int \<Rightarrow> int"

text \<open>A zone without any change of offset.\<close>

definition fixedZone :: "int \<Rightarrow> TimeZone" where
  "fixedZone tza = \<lparr> utcOffset = (\<lambda>t. tza), localOffset = (\<lambda>t. tza) \<rparr>"


definition msPerHour :: int where "msPerHour = 3600000"
definition msPerDay :: int where "msPerDay = 86400000"

definition Day :: "int \<Rightarrow> int" where "Day t = t div msPerDay"
definition HourFromTime :: "int \<Rightarrow> int" where "HourFromTime t = (t div msPerHour) mod 24"
definition MinFromTime :: "int \<Rightarrow> int" where "MinFromTime t = (t div 60000) mod 60"
definition SecFromTime :: "int \<Rightarrow> int" where "SecFromTime t = (t div 1000) mod 60"
definition msFromTime :: "int \<Rightarrow> int" where "msFromTime t = t mod 1000"

definition ToIntegerOrInfinity :: "rat \<Rightarrow> int" where
  "ToIntegerOrInfinity x = (if 0 \<le> x then \<lfloor>x\<rfloor> else \<lceil>x\<rceil>)"

definition MakeTime :: "rat \<Rightarrow> int \<Rightarrow> int \<Rightarrow> int \<Rightarrow> int" where
  "MakeTime hour m s ms = ToIntegerOrInfinity hour * msPerHour + m * 60000 + s * 1000 + ms"

definition MakeDate :: "int \<Rightarrow> int \<Rightarrow> int" where
  "MakeDate d tm = d * msPerDay + tm"

definition LocalTime :: "TimeZone \<Rightarrow> int \<Rightarrow> int" where
  "LocalTime zone t = t + utcOffset zone t"

definition UTC :: "TimeZone \<Rightarrow> int \<Rightarrow> int" where
  "UTC zone t = t - localOffset zone t"

definition TimeClip :: "int \<Rightarrow> int option" where
  "TimeClip t = (if \<bar>t\<bar> > 8640000000000000 then None else Some t)"

definition getHours :: "TimeZone \<Rightarrow> int \<Rightarrow> int" where
  "getHours zone t = HourFromTime (LocalTime zone t)"

definition setHours :: "TimeZone \<Rightarrow> int \<Rightarrow> rat \<Rightarrow> int option" where
  "setHours zone t hour =
     (let lt = LocalTime zone t
      in TimeClip (UTC zone
           (MakeDate (Day lt) (MakeTime hour (MinFromTime lt) (SecFromTime lt) (msFromTime lt)))))"

section \<open>SLA calculation (ticketService: calculateSLA, addWorkingHours)\<close>

text \<open>
  \<open>addWorkingHours\<close> copies the start date and sets its hour field to
  \<open>getHours() + hours\<close>; the policy it is given is not read. The comparisons of
  \<open>calculateSLA\<close> are those of the source: \<open><=\<close> against an invalid date is false,
  and a remaining time computed from an invalid date is \<open>NaN\<close>.
\<close>

definition addWorkingHours :: "TimeZone \<Rightarrow> int \<Rightarrow> rat \<Rightarrow> SLAConfig \<Rightarrow> int option" where
  "addWorkingHours zone startDate hours sla =
     setHours zone startDate (of_int (getHours zone startDate) + hours)"

record SLACalculationResult =
  responseDeadline :: "int option"
  resolutionDeadline :: "int option"
  isWithinResponseSLA :: bool
  isWithinResolutionSLA :: bool
  responseTimeRemaining :: "rat option"
  resolutionTimeRemaining :: "rat option"

definition dateLe :: "int \<Rightarrow> int option \<Rightarrow> bool" where
  "dateLe a deadline = (case deadline of None \<Rightarrow> False | Some d \<Rightarrow> a \<le> d)"

definition hoursRemaining :: "int option \<Rightarrow> int \<Rightarrow> rat option" where
  "hoursRemaining deadline now =
     (case deadline of
        None \<Rightarrow> None
      | Some d \<Rightarrow> Some (max 0 (of_int (d - now) / 3600000)))"

definition leNumber :: "rat option \<Rightarrow> rat \<Rightarrow> bool" where
  "leNumber x bound = (case x of None \<Rightarrow> False | Some v \<Rightarrow> v \<le> bound)"

definition calculateSLA :: "TimeZone \<Rightarrow> int \<Rightarrow> Ticket \<Rightarrow> SLACalculationResult" where
  "calculateSLA zone now ticket =
     (let sla = slaConfig ticket;
          rd = addWorkingHours zone (createdAt ticket) (responseTimeHours sla) sla;
          sd = addWorkingHours zone (createdAt ticket) (resolutionTimeHours sla) sla
      in \<lparr> responseDeadline = rd,
           resolutionDeadline = sd,
           isWithinResponseSLA =
             (case responses ticket of r # _ \<Rightarrow> dateLe (sentAt r) rd | [] \<Rightarrow> dateLe now rd),
           isWithinResolutionSLA =
             (case resolvedAt ticket of Some ra \<Rightarrow> dateLe ra sd | None \<Rightarrow> dateLe now sd),
           responseTimeRemaining = hoursRemaining rd now,
           resolutionTimeRemaining = hoursRemaining sd now \<rparr>)"

section \<open>The JSON database (config/database.ts)\<close>

datatype UserRole = ADMIN | MANAGER | AGENT

record User =
  userId :: string
  user_department :: string
  role :: UserRole
  isActive :: bool

text \<open>
  An escalation rule read from the \<open>escalationRules\<close> collection carries a department;
  the two built-in fallback rules of \<open>getEscalationRules\<close> have none.
\<close>

record EscalationRule =
  rule_department :: "string option"
  rule_level :: nat
  escalateTo :: string
  timeoutHours :: int

text \<open>
  The collections are arrays. An entry of \<open>slaConfigs\<close> is a department name with the
  \<open>SLAConfig\<close> fields.
\<close>

record Database =
  tickets :: "Ticket list"
  users :: "User list"
  slaConfigs :: "(string \<times> SLAConfig) list"
  escalationRules :: "EscalationRule list"

definition findById :: "Database \<Rightarrow> string \<Rightarrow> Ticket option" where
  "findById db i = find (\<lambda>item. ticketId item = i) (tickets db)"

text \<open>
  \<open>db.update\<close>: \<open>findIndex\<close> takes the first item with the id; the item is replaced by
  the merge of the old item, the updates and \<open>updatedAt: new Date()\<close>. A
  \<open>Partial<Ticket>\<close> is the function that overwrites the given fields.
\<close>

fun updateFirst :: "string \<Rightarrow> (Ticket \<Rightarrow> Ticket) \<Rightarrow> Ticket list \<Rightarrow> Ticket list" where
  "updateFirst i f [] = []"
| "updateFirst i f (item # items) =
     (if ticketId item = i then f item # items else item # updateFirst i f items)"

definition db_update ::
  "Database \<Rightarrow> int \<Rightarrow> string \<Rightarrow> (Ticket \<Rightarrow> Ticket) \<Rightarrow> Database \<times> Ticket option" where
  "db_update db now i updates =
     (case findById db i of
        None \<Rightarrow> (db, None)
      | Some item \<Rightarrow>
          (db\<lparr>tickets := updateFirst i (\<lambda>old. (updates old)\<lparr>updatedAt := now\<rparr>) (tickets db)\<rparr>,
           Some ((updates item)\<lparr>updatedAt := now\<rparr>)))"

text \<open>\<open>db.create\<close>: the new item gets a fresh uuid (a parameter here) and both timestamps.\<close>

definition db_create :: "Database \<Rightarrow> int \<Rightarrow> string \<Rightarrow> Ticket \<Rightarrow> Database \<times> Ticket" where
  "db_create db now newId data =
     (let newItem = data\<lparr>ticketId := newId, createdAt := now, updatedAt := now\<rparr>
      in (db\<lparr>tickets := tickets db @ [newItem]\<rparr>, newItem))"

section \<open>Ticket service (ticketService)\<close>

text \<open>
  Every operation takes the database and returns the new one with its result. Within
  one call every \<open>new Date()\<close> reads the same instant \<open>now\<close>. The notification stubs
  (\<open>notifyAssignment\<close>, \<open>sendEscalationNotifications\<close>, \<open>sendGuestResponse\<close>) only write
  to the console and have no part in the model.
\<close>

datatype Error = MaxEscalationLevelReached

definition getTicketById :: "Database \<Rightarrow> string \<Rightarrow> Ticket option" where
  "getTicketById db i = findById db i"

definition digitChar :: "nat \<Rightarrow> char" where
  "digitChar n = ''0123456789'' ! n"

fun showNat :: "nat \<Rightarrow> string" where
  "showNat n = (if n < 10 then [digitChar n] else showNat (n div 10) @ [digitChar (n mod 10)])"

declare showNat.simps [simp del]

fun statusString :: "TicketStatus \<Rightarrow> string" where
  "statusString OPEN = ''open''"
| "statusString IN_PROGRESS = ''in_progress''"
| "statusString ON_HOLD = ''on_hold''"
| "statusString ESCALATED = ''escalated''"
| "statusString RESOLVED = ''resolved''"
| "statusString CLOSED = ''closed''"
| "statusString CANCELLED = ''cancelled''"

definition addInternalNote ::
  "Database \<Rightarrow> int \<Rightarrow> string \<Rightarrow> string \<Rightarrow> string \<Rightarrow> Database \<times> bool" where
  "addInternalNote db now tid text who =
     (case getTicketById db tid of
        None \<Rightarrow> (db, False)
      | Some ticket \<Rightarrow>
          (let note = \<lparr> note_content = text, addedBy = who, addedAt = now \<rparr>;
               (db1, updatedTicket) =
                 db_update db now tid (\<lambda>old. old\<lparr>internalNotes := internalNotes ticket @ [note]\<rparr>)
           in (db1, updatedTicket \<noteq> None)))"

definition addTicketResponse ::
  "Database \<Rightarrow> int \<Rightarrow> string \<Rightarrow> string \<Rightarrow> string \<Rightarrow> SentTo \<Rightarrow> Channel \<Rightarrow> bool
     \<Rightarrow> Database \<times> bool" where
  "addTicketResponse db now tid text who recipient chan automated =
     (case getTicketById db tid of
        None \<Rightarrow> (db, False)
      | Some ticket \<Rightarrow>
          (let response = \<lparr> content = text, sentBy = who, sentTo = recipient, channel = chan,
                             isAutomated = automated, sentAt = now \<rparr>;
               (db1, updatedTicket) =
                 db_update db now tid (\<lambda>old. old\<lparr>responses := responses ticket @ [response]\<rparr>)
           in (db1, updatedTicket \<noteq> None)))"

text \<open>
  \<open>updateTicketStatus\<close>: the requested status is written without looking at the current
  one. The optional reason counts when it is a non-empty string.
\<close>

definition statusUpdates :: "int \<Rightarrow> TicketStatus \<Rightarrow> Ticket \<Rightarrow> Ticket" where
  "statusUpdates now st old =
     (if st = RESOLVED then old\<lparr>status := st, resolvedAt := Some now\<rparr>
      else if st = CLOSED then old\<lparr>status := st, closedAt := Some now\<rparr>
      else old\<lparr>status := st\<rparr>)"

definition updateTicketStatus ::
  "Database \<Rightarrow> int \<Rightarrow> string \<Rightarrow> TicketStatus \<Rightarrow> string \<Rightarrow> string option
     \<Rightarrow> Database \<times> Ticket option" where
  "updateTicketStatus db now tid st updatedBy why =
     (let (db1, updatedTicket) = db_update db now tid (statusUpdates now st)
      in if updatedTicket \<noteq> None \<and> why \<noteq> None \<and> why \<noteq> Some []
         then (fst (addInternalNote db1 now tid
                      (''Status changed to '' @ statusString st @ '': '' @ the why) updatedBy),
               updatedTicket)
         else (db1, updatedTicket))"

definition assignTicket ::
  "Database \<Rightarrow> int \<Rightarrow> string \<Rightarrow> string \<Rightarrow> string \<Rightarrow> Database \<times> Ticket option" where
  "assignTicket db now tid agentId assignedBy =
     (let (db1, ticket) =
            db_update db now tid (\<lambda>old. old\<lparr>assignedTo := Some agentId, status := IN_PROGRESS\<rparr>)
      in if ticket \<noteq> None
         then (fst (addInternalNote db1 now tid (''Ticket assigned to agent '' @ agentId) assignedBy),
               ticket)
         else (db1, ticket))"

definition defaultEscalationRules :: "EscalationRule list" where
  "defaultEscalationRules =
     [\<lparr> rule_department = None, rule_level = 1, escalateTo = ''manager'', timeoutHours = 4 \<rparr>,
      \<lparr> rule_department = None, rule_level = 2, escalateTo = ''admin'', timeoutHours = 8 \<rparr>]"

definition getEscalationRules :: "Database \<Rightarrow> string \<Rightarrow> EscalationRule list" where
  "getEscalationRules db dept =
     (let rules = filter (\<lambda>rule. rule_department rule = Some dept
                                 \<or> rule_department rule = Some ''default'') (escalationRules db)
      in if length rules > 0 then rules else defaultEscalationRules)"

text \<open>
  \<open>escalateTicket\<close>: \<open>null\<close> for an unknown id, the thrown
  \<open>Error('Maximum escalation level reached')\<close> as \<open>Inl\<close>. The status of the ticket is
  not read.
\<close>

definition escalateTicket ::
  "Database \<Rightarrow> int \<Rightarrow> string \<Rightarrow> string \<Rightarrow> string \<Rightarrow> Database \<times> (Error + Ticket option)" where
  "escalateTicket db now tid who why =
     (case getTicketById db tid of
        None \<Rightarrow> (db, Inr None)
      | Some ticket \<Rightarrow>
          (let lvl = escalationLevel ticket + 1;
               rules = getEscalationRules db (department ticket)
           in if lvl > length rules then (db, Inl MaxEscalationLevelReached)
              else
                (let nextLevelRule = rules ! (lvl - 1);
                     escalationRecord =
                       \<lparr> level = lvl, escalatedTo = escalateTo nextLevelRule, escalatedBy = who,
                         reason = why, escalatedAt = now \<rparr>;
                     (db1, updatedTicket) =
                       db_update db now tid
                         (\<lambda>old. old\<lparr>isEscalated := True, escalationLevel := lvl,
                                    status := ESCALATED,
                                    assignedTo := Some (escalateTo nextLevelRule),
                                    escalationHistory :=
                                      escalationHistory ticket @ [escalationRecord]\<rparr>)
                 in if updatedTicket \<noteq> None
                    then (fst (addInternalNote db1 now tid
                                 (''Ticket escalated to level '' @ showNat lvl @ '': '' @ why) who),
                          Inr updatedTicket)
                    else (db1, Inr updatedTicket))))"

section \<open>Ticket creation (ticketService: createTicket, sendAutoResponse)\<close>

text \<open>
  \<open>aiService.generateSmartReplies\<close>: a fixed table of three replies per category; the
  content of the ticket is not read.
\<close>

fun generateSmartReplies :: "TicketCategory \<Rightarrow> string \<Rightarrow> string list" where
  "generateSmartReplies COMPLAINT text =
     [''Thank you for bringing this to our attention. We sincerely apologize for the inconvenience caused.'',
      ''We take your feedback seriously and are investigating this matter immediately.'',
      ''Your concerns are valid, and we are committed to resolving this issue promptly.'']"
| "generateSmartReplies SERVICE_REQUEST text =
     [''We've received your service request and will attend to it shortly.'',
      ''Our team is on the way to assist you with your request.'',
      ''Thank you for your request. We'll have someone address this within the hour.'']"
| "generateSmartReplies HOUSEKEEPING text =
     [''We apologize for the housekeeping issue. Our team will rectify this immediately.'',
      ''Housekeeping has been notified and will attend to your room right away.'',
      ''We're sorry about the cleanliness concern. This will be addressed within 30 minutes.'']"
| "generateSmartReplies FOOD_BEVERAGE text =
     [''We apologize for the dining experience issue. Our chef and management team will review this.'',
      ''Thank you for your feedback about our food service. We're taking immediate action to improve.'',
      ''We're sorry the meal didn't meet your expectations. We'd like to make this right for you.'']"
| "generateSmartReplies FRONT_DESK text =
     [''We apologize for any inconvenience at check-in/check-out. Our front desk manager will assist you.'',
      ''Thank you for your patience. We're working to resolve this front desk matter immediately.'',
      ''We understand your concern and our front office team is addressing this right away.'']"
| "generateSmartReplies MAINTENANCE text =
     [''We apologize for the maintenance issue. Our technical team has been dispatched to fix this.'',
      ''Maintenance has been notified and will resolve this issue as quickly as possible.'',
      ''We're sorry for the inconvenience. Our maintenance team will have this fixed shortly.'']"
| "generateSmartReplies IT_SUPPORT text =
     [''We apologize for the technical difficulties. Our IT team is working to resolve this immediately.'',
      ''Thank you for reporting the connectivity issue. We're addressing this right away.'',
      ''We understand how frustrating technical issues can be. Our IT support is on the case.'']"
| "generateSmartReplies INQUIRY text =
     [''Thank you for your inquiry. We're happy to provide you with the information you need.'',
      ''We appreciate your question and will provide you with a detailed response shortly.'',
      ''Thank you for reaching out. We'll ensure you get the assistance you need.'']"

definition sendAutoResponse :: "Database \<Rightarrow> int \<Rightarrow> Ticket \<Rightarrow> Database" where
  "sendAutoResponse db now ticket =
     (case generateSmartReplies (category ticket) (description ticket) of
        [] \<Rightarrow> db
      | reply # others \<Rightarrow>
          fst (addTicketResponse db now (ticketId ticket) reply ''system'' Guest Email True))"

fun getDepartmentByCategory :: "TicketCategory \<Rightarrow> string" where
  "getDepartmentByCategory HOUSEKEEPING = ''Housekeeping''"
| "getDepartmentByCategory FOOD_BEVERAGE = ''Food & Beverage''"
| "getDepartmentByCategory FRONT_DESK = ''Front Desk''"
| "getDepartmentByCategory MAINTENANCE = ''Maintenance''"
| "getDepartmentByCategory IT_SUPPORT = ''IT Support''"
| "getDepartmentByCategory COMPLAINT = ''Front Desk''"
| "getDepartmentByCategory SERVICE_REQUEST = ''Front Desk''"
| "getDepartmentByCategory INQUIRY = ''Front Desk''"

definition workingDay :: DaySchedule where
  "workingDay = \<lparr> isWorkingDay = True, startTime = Some ''09:00'', endTime = Some ''18:00'' \<rparr>"

definition getDefaultSLAConfig :: SLAConfig where
  "getDefaultSLAConfig =
     \<lparr> responseTimeHours = 2, resolutionTimeHours = 24,
       workingHours =
         Some \<lparr> monday = workingDay, tuesday = workingDay, wednesday = workingDay,
                thursday = workingDay, friday = workingDay, saturday = workingDay,
                sunday = \<lparr> isWorkingDay = False, startTime = None, endTime = None \<rparr> \<rparr>,
       holidays = [], isPaused = False, pauseReason = None, pausedAt = None,
       resumedAt = None \<rparr>"

definition getSLAConfig :: "Database \<Rightarrow> string \<Rightarrow> SLAConfig" where
  "getSLAConfig db dept =
     (let configs = filter (\<lambda>c. fst c = dept \<or> fst c = ''default'') (slaConfigs db)
      in case find (\<lambda>c. fst c = dept) configs of
           Some c \<Rightarrow> snd c
         | None \<Rightarrow>
             (case find (\<lambda>c. fst c = ''default'') configs of
                Some c \<Rightarrow> snd c
              | None \<Rightarrow> getDefaultSLAConfig))"

definition getDefaultAgentForDepartment :: "Database \<Rightarrow> string \<Rightarrow> string option" where
  "getDefaultAgentForDepartment db dept =
     (case filter (\<lambda>u. user_department u = dept \<and> role u = AGENT \<and> isActive u) (users db) of
        [] \<Rightarrow> None
      | agent # others \<Rightarrow> Some (userId agent))"

record CreateTicketData =
  data_title :: string
  data_description :: string
  data_category :: "TicketCategory option"
  data_department :: "string option"
  data_assignedTo :: "string option"

text \<open>
  \<open>createTicket\<close>. The classifier \<open>aiService.categorizeTicket\<close> is a parameter. \<open>a || b\<close>
  takes \<open>b\<close> when \<open>a\<close> is undefined or the empty string. The ticket is stored by
  \<open>db.create\<close> at \<open>now\<close> under the new uuid, then the automatic reply is added at
  \<open>nowReply\<close>; the returned ticket is the object \<open>db.create\<close> returned.
\<close>

definition orElse :: "string option \<Rightarrow> string \<Rightarrow> string" where
  "orElse a b = (case a of None \<Rightarrow> b | Some v \<Rightarrow> (if v = [] then b else v))"

definition createTicket ::
  "Database \<Rightarrow> int \<Rightarrow> int \<Rightarrow> string \<Rightarrow> (string \<Rightarrow> TicketCategory) \<Rightarrow> CreateTicketData
     \<Rightarrow> Database \<times> Ticket" where
  "createTicket db now nowReply newId categorizeTicket data =
     (let categorization =
            (case data_category data of
               Some c \<Rightarrow> c
             | None \<Rightarrow> categorizeTicket (data_description data));
          dept = orElse (data_department data) (getDepartmentByCategory categorization);
          sla = getSLAConfig db dept;
          assignee =
            (case data_assignedTo data of
               None \<Rightarrow> getDefaultAgentForDepartment db dept
             | Some a \<Rightarrow> (if a = [] then getDefaultAgentForDepartment db dept else Some a));
          ticket =
            \<lparr> ticketId = [], title = data_title data, description = data_description data,
              category = categorization, status = OPEN, assignedTo = assignee,
              department = dept, internalNotes = [], responses = [], slaConfig = sla,
              escalationHistory = [], isEscalated = False, escalationLevel = 0,
              createdAt = 0, updatedAt = 0, resolvedAt = None, closedAt = None \<rparr>;
          (db1, savedTicket) = db_create db now newId ticket
      in (sendAutoResponse db1 nowReply savedTicket, savedTicket))"

section \<open>Breach sweep (ticketService: checkSLABreaches)\<close>

text \<open>
  What the sweep hands to its collaborators is kept as a list of events: a caught
  escalation failure (\<open>console.error\<close>) and each \<open>sendSLAWarning\<close> call. The loop runs
  over the array that \<open>db.findBy\<close> returned before the first iteration, so each
  iteration sees the ticket as it was then.
\<close>

datatype WarningType = ResponseWarning | ResolutionWarning

datatype SweepEvent = EscalationFailed string Error | SLAWarning string WarningType

definition sweepTicket ::
  "TimeZone \<Rightarrow> int \<Rightarrow> Database \<Rightarrow> SweepEvent list \<Rightarrow> Ticket \<Rightarrow> Database \<times> SweepEvent list" where
  "sweepTicket zone now db evs ticket =
     (let slaResult = calculateSLA zone now ticket;
          (db1, evs1) =
            (if leNumber (resolutionTimeRemaining slaResult) 1 \<and> \<not> isEscalated ticket
             then (case escalateTicket db now (ticketId ticket) ''system''
                          ''Auto-escalated due to SLA breach risk'' of
                     (db', Inl e) \<Rightarrow> (db', evs @ [EscalationFailed (ticketId ticket) e])
                   | (db', Inr r) \<Rightarrow> (db', evs))
             else (db, evs));
          evs2 = (if leNumber (responseTimeRemaining slaResult) (1 / 2) \<and> responses ticket = []
                  then evs1 @ [SLAWarning (ticketId ticket) ResponseWarning] else evs1);
          evs3 = (if leNumber (resolutionTimeRemaining slaResult) 2 \<and> resolvedAt ticket = None
                  then evs2 @ [SLAWarning (ticketId ticket) ResolutionWarning] else evs2)
      in (db1, evs3))"

fun sweepLoop ::
  "TimeZone \<Rightarrow> int \<Rightarrow> Ticket list \<Rightarrow> Database \<Rightarrow> SweepEvent list \<Rightarrow> Database \<times> SweepEvent list" where
  "sweepLoop zone now [] db evs = (db, evs)"
| "sweepLoop zone now (ticket # rest) db evs =
     (case sweepTicket zone now db evs ticket of (db', evs') \<Rightarrow> sweepLoop zone now rest db' evs')"

definition openTickets :: "Database \<Rightarrow> Ticket list" where
  "openTickets db = filter (\<lambda>ticket. status ticket \<in> set [OPEN, IN_PROGRESS]) (tickets db)"

definition checkSLABreaches :: "TimeZone \<Rightarrow> int \<Rightarrow> Database \<Rightarrow> Database \<times> SweepEvent list" where
  "checkSLABreaches zone now db = sweepLoop zone now (openTickets db) db []"

section \<open>The Calendar of the specification\<close>

text \<open>
  Written from the words of the specification (section 4.2), not from the source, to
  compare the source with: the working duration between two instants counts the
  minutes that lie inside the working window of their weekday and not on a configured
  holiday date; without a working-hours configuration it is the whole time between
  them; it is zero when the start is after the end.
\<close>

definition WeekDay :: "int \<Rightarrow> int" where
  "WeekDay t = (Day t + 4) mod 7"

definition scheduleOf :: "WorkingHours \<Rightarrow> int \<Rightarrow> DaySchedule" where
  "scheduleOf wh wd =
     (if wd = 0 then sunday wh else if wd = 1 then monday wh else if wd = 2 then tuesday wh
      else if wd = 3 then wednesday wh else if wd = 4 then thursday wh
      else if wd = 5 then friday wh else saturday wh)"

definition digitValue :: "char \<Rightarrow> int option" where
  "digitValue c =
     (let n = (of_char c :: nat)
      in if 48 \<le> n \<and> n \<le> 57 then Some (int n - 48) else None)"

definition parseHHmm :: "string \<Rightarrow> int option" where
  "parseHHmm s =
     (case s of
        [a, b, sep, c, d] \<Rightarrow>
          (case (digitValue a, digitValue b, digitValue c, digitValue d) of
             (Some h1, Some h0, Some m1, Some m0) \<Rightarrow>
               (if sep = CHR '':'' then Some ((10 * h1 + h0) * 60 + 10 * m1 + m0) else None)
           | _ \<Rightarrow> None)
      | _ \<Rightarrow> None)"

definition isHoliday :: "TimeZone \<Rightarrow> SLAConfig \<Rightarrow> int \<Rightarrow> bool" where
  "isHoliday zone sla t =
     list_ex (\<lambda>h. Day (LocalTime zone h) = Day (LocalTime zone t)) (holidays sla)"

definition insideWindow :: "DaySchedule \<Rightarrow> int \<Rightarrow> bool" where
  "insideWindow ds minuteOfDay =
     (case (startTime ds, endTime ds) of
        (Some a, Some b) \<Rightarrow>
          (case (parseHHmm a, parseHHmm b) of
             (Some lo, Some hi) \<Rightarrow> lo \<le> minuteOfDay \<and> minuteOfDay < hi
           | _ \<Rightarrow> False)
      | _ \<Rightarrow> False)"

definition isWorkingMinute :: "TimeZone \<Rightarrow> WorkingHours \<Rightarrow> SLAConfig \<Rightarrow> int \<Rightarrow> bool" where
  "isWorkingMinute zone wh sla m =
     (let lt = LocalTime zone (m * 60000);
          ds = scheduleOf wh (WeekDay lt)
      in \<not> isHoliday zone sla (m * 60000) \<and> isWorkingDay ds
         \<and> insideWindow ds (HourFromTime lt * 60 + MinFromTime lt))"

text \<open>The duration is in minutes.\<close>

definition workingDurationBetween :: "TimeZone \<Rightarrow> SLAConfig \<Rightarrow> int \<Rightarrow> int \<Rightarrow> int" where
  "workingDurationBetween zone sla start end =
     (if start > end then 0
      else (case workingHours sla of
              None \<Rightarrow> end div 60000 - start div 60000
            | Some wh \<Rightarrow>
                int (length (filter (isWorkingMinute zone wh sla)
                               [start div 60000 .. end div 60000 - 1]))))"

section \<open>Example data\<close>

definition utcZone :: TimeZone where
  "utcZone = fixedZone 0"



definition exampleTicket :: Ticket where
  "exampleTicket =
     \<lparr> ticketId = ''t1'', title = ''Noisy room'', description = ''The room is noisy'',
       category = COMPLAINT, status = OPEN, assignedTo = None, department = ''Front Desk'',
       internalNotes = [], responses = [], slaConfig = getDefaultSLAConfig,
       escalationHistory = [], isEscalated = False, escalationLevel = 0,
       createdAt = 0, updatedAt = 0, resolvedAt = None, closedAt = None \<rparr>"

definition exampleDb :: "Ticket list \<Rightarrow> Database" where
  "exampleDb ts = \<lparr> tickets = ts, users = [], slaConfigs = [], escalationRules = [] \<rparr>"

definition closedTicket :: Ticket where
  "closedTicket = exampleTicket\<lparr>status := CLOSED, closedAt := Some 1\<rparr>"

definition resolvedTicket :: Ticket where
  "resolvedTicket = exampleTicket\<lparr>status := RESOLVED, resolvedAt := Some 3\<rparr>"

definition topLevelTicket :: Ticket where
  "topLevelTicket = exampleTicket\<lparr>status := ESCALATED, isEscalated := True, escalationLevel := 2\<rparr>"

definition onHoldTicket :: Ticket where
  "onHoldTicket = exampleTicket\<lparr>ticketId := ''t2'', status := ON_HOLD\<rparr>"


text \<open>A policy that was paused at time 0 and resumed one hour later.\<close>

definition pausedPolicy :: SLAConfig where
  "pausedPolicy = getDefaultSLAConfig\<lparr>pausedAt := Some 0, resumedAt := Some 3600000\<rparr>"

text \<open>A policy whose only holiday is the day of the epoch, 1 January 1970.\<close>

definition holidayPolicy :: SLAConfig where
  "holidayPolicy = getDefaultSLAConfig\<lparr>holidays := [0]\<rparr>"

definition exampleData :: CreateTicketData where
  "exampleData =
     \<lparr> data_title = ''Towels'', data_description = ''Please bring towels'',
       data_category = Some HOUSEKEEPING, data_department = None, data_assignedTo = None \<rparr>"

definition mixedDb :: Database where
  "mixedDb = exampleDb [exampleTicket, onHoldTicket]"

definition exampleClassifier :: "string \<Rightarrow> TicketCategory" where
  "exampleClassifier text = INQUIRY"

definition createdDb :: Database where
  "createdDb = fst (createTicket (exampleDb [exampleTicket]) 10 11 ''t9'' exampleClassifier exampleData)"

definition escalatedDb :: Database where
  "escalatedDb = fst (escalateTicket (exampleDb [exampleTicket]) 5 ''t1'' ''agent'' ''guest is upset'')"

definition escalatedThenReopenedDb :: Database where
  "escalatedThenReopenedDb =
     fst (updateTicketStatus
            (fst (escalateTicket (exampleDb [exampleTicket]) 5 ''t1'' ''agent'' ''guest is upset''))
            6 ''t1'' IN_PROGRESS ''agent'' None)"

section \<open>Deadlines\<close>









section \<open>Lemmas about lookup, update and the service operations\<close>

lemma find_id_Some: "find (\<lambda>item. ticketId item = i) ts = Some t \<Longrightarrow> ticketId t = i \<and> t \<in> set ts"
  by (induction ts) (auto split: if_splits)

lemma find_updateFirst_same:
  "find (\<lambda>item. ticketId item = i) ts = Some t \<Longrightarrow> ticketId (f t) = i
   \<Longrightarrow> find (\<lambda>item. ticketId item = i) (updateFirst i f ts) = Some (f t)"
  by (induction ts) (auto split: if_splits)

lemma find_updateFirst_other:
  "j \<noteq> i \<Longrightarrow> (\<And>t. ticketId (f t) = ticketId t)
   \<Longrightarrow> find (\<lambda>item. ticketId item = j) (updateFirst i f ts) = find (\<lambda>item. ticketId item = j) ts"
  by (induction ts) auto

lemma map_ticketId_updateFirst:
  "(\<And>t. ticketId (f t) = ticketId t) \<Longrightarrow> map ticketId (updateFirst i f ts) = map ticketId ts"
  by (induction ts) auto

lemma find_distinct_member:
  "distinct (map ticketId ts) \<Longrightarrow> t \<in> set ts \<Longrightarrow> find (\<lambda>item. ticketId item = ticketId t) ts = Some t"
  by (induction ts) (auto simp: image_iff)

lemma getTicketById_Some: "getTicketById db i = Some t \<Longrightarrow> ticketId t = i \<and> t \<in> set (tickets db)"
  unfolding getTicketById_def findById_def by (rule find_id_Some)

lemma getTicketById_member:
  "distinct (map ticketId (tickets db)) \<Longrightarrow> t \<in> set (tickets db) \<Longrightarrow> getTicketById db (ticketId t) = Some t"
  unfolding getTicketById_def findById_def by (rule find_distinct_member)

lemma db_update_missing: "getTicketById db i = None \<Longrightarrow> db_update db now i u = (db, None)"
  by (simp add: db_update_def getTicketById_def)

lemma db_update_found:
  "getTicketById db i = Some t \<Longrightarrow>
   db_update db now i u =
     (db\<lparr>tickets := updateFirst i (\<lambda>old. (u old)\<lparr>updatedAt := now\<rparr>) (tickets db)\<rparr>,
      Some ((u t)\<lparr>updatedAt := now\<rparr>))"
  by (simp add: db_update_def getTicketById_def)

lemma db_update_same:
  assumes "getTicketById db i = Some t" and "\<And>old. ticketId (u old) = ticketId old"
  shows "getTicketById (fst (db_update db now i u)) i = Some ((u t)\<lparr>updatedAt := now\<rparr>)"
proof -
  have "ticketId t = i" using assms(1) by (simp add: getTicketById_Some)
  then have "ticketId ((u t)\<lparr>updatedAt := now\<rparr>) = i" using assms(2) by simp
  then show ?thesis
    using assms(1) find_updateFirst_same [of i "tickets db" t "\<lambda>old. (u old)\<lparr>updatedAt := now\<rparr>"]
    by (simp add: db_update_def getTicketById_def findById_def)
qed

lemma db_update_other:
  assumes "j \<noteq> i" and "\<And>old. ticketId (u old) = ticketId old"
  shows "getTicketById (fst (db_update db now i u)) j = getTicketById db j"
  using assms find_updateFirst_other [of j i "\<lambda>old. (u old)\<lparr>updatedAt := now\<rparr>" "tickets db"]
  by (simp add: db_update_def getTicketById_def findById_def split: option.splits)

lemma db_update_ids:
  assumes "\<And>old. ticketId (u old) = ticketId old"
  shows "map ticketId (tickets (fst (db_update db now i u))) = map ticketId (tickets db)"
  using assms map_ticketId_updateFirst [of "\<lambda>old. (u old)\<lparr>updatedAt := now\<rparr>" i "tickets db"]
  by (simp add: db_update_def split: option.splits)

lemma db_update_rules:
  "escalationRules (fst (db_update db now i u)) = escalationRules db"
  by (simp add: db_update_def split: option.splits)


lemma addInternalNote_same:
  assumes "getTicketById db i = Some t"
  shows "getTicketById (fst (addInternalNote db now i txt who)) i =
           Some (t\<lparr>internalNotes := internalNotes t @ [\<lparr> note_content = txt, addedBy = who, addedAt = now \<rparr>],
                    updatedAt := now\<rparr>)"
  using assms
    db_update_same [OF assms, of "\<lambda>old. old\<lparr>internalNotes := internalNotes t @ [\<lparr> note_content = txt, addedBy = who, addedAt = now \<rparr>]\<rparr>" now]
  by (simp add: addInternalNote_def Let_def case_prod_beta)

lemma addInternalNote_other:
  assumes "j \<noteq> i"
  shows "getTicketById (fst (addInternalNote db now i txt who)) j = getTicketById db j"
proof (cases "getTicketById db i")
  case None
  then show ?thesis by (simp add: addInternalNote_def)
next
  case (Some t)
  show ?thesis
    using Some db_update_other [OF assms, of "\<lambda>old. old\<lparr>internalNotes := internalNotes t @ [\<lparr> note_content = txt, addedBy = who, addedAt = now \<rparr>]\<rparr>" db now]
    by (simp add: addInternalNote_def Let_def case_prod_beta)
qed

lemma addInternalNote_ids:
  "map ticketId (tickets (fst (addInternalNote db now i txt who))) = map ticketId (tickets db)"
proof (cases "getTicketById db i")
  case None
  then show ?thesis by (simp add: addInternalNote_def)
next
  case (Some t)
  show ?thesis
    using Some db_update_ids [of "\<lambda>old. old\<lparr>internalNotes := internalNotes t @ [\<lparr> note_content = txt, addedBy = who, addedAt = now \<rparr>]\<rparr>" db now i]
    by (simp add: addInternalNote_def Let_def case_prod_beta)
qed

lemma addInternalNote_rules:
  "escalationRules (fst (addInternalNote db now i txt who)) = escalationRules db"
proof (cases "getTicketById db i")
  case None
  then show ?thesis by (simp add: addInternalNote_def)
next
  case (Some t)
  show ?thesis
    using Some db_update_rules [of db now i "\<lambda>old. old\<lparr>internalNotes := internalNotes t @ [\<lparr> note_content = txt, addedBy = who, addedAt = now \<rparr>]\<rparr>"]
    by (simp add: addInternalNote_def Let_def case_prod_beta)
qed


lemma escalateTicket_missing:
  "getTicketById db i = None \<Longrightarrow> escalateTicket db now i who why = (db, Inr None)"
  by (simp add: escalateTicket_def)

lemma escalateTicket_max:
  assumes "getTicketById db i = Some t"
    and "length (getEscalationRules db (department t)) \<le> escalationLevel t"
  shows "escalateTicket db now i who why = (db, Inl MaxEscalationLevelReached)"
  using assms by (simp add: escalateTicket_def Let_def)

lemma escalateTicket_unfold:
  assumes "getTicketById db i = Some t"
    and "escalationLevel t < length (getEscalationRules db (department t))"
  shows "escalateTicket db now i who why =
           (let u = (\<lambda>old. old\<lparr>isEscalated := True, escalationLevel := Suc (escalationLevel t),
                        status := ESCALATED,
                        assignedTo := Some (escalateTo (getEscalationRules db (department t) ! escalationLevel t)),
                        escalationHistory := escalationHistory t @
                          [\<lparr> level = Suc (escalationLevel t),
                             escalatedTo = escalateTo (getEscalationRules db (department t) ! escalationLevel t),
                             escalatedBy = who, reason = why, escalatedAt = now \<rparr>]\<rparr>)
            in (fst (addInternalNote (fst (db_update db now i u)) now i
                       (''Ticket escalated to level '' @ showNat (Suc (escalationLevel t)) @ '': '' @ why) who),
                Inr (Some ((u t)\<lparr>updatedAt := now\<rparr>))))"
  using assms by (simp add: escalateTicket_def Let_def db_update_found)

lemma escalateTicket_ok:
  fixes now :: int and who why :: string
  assumes found: "getTicketById db i = Some t"
    and below: "escalationLevel t < length (getEscalationRules db (department t))"
  defines "t1 \<equiv> t\<lparr>isEscalated := True, escalationLevel := Suc (escalationLevel t),
                    status := ESCALATED,
                    assignedTo := Some (escalateTo (getEscalationRules db (department t) ! escalationLevel t)),
                    escalationHistory := escalationHistory t @
                      [\<lparr> level = Suc (escalationLevel t),
                         escalatedTo = escalateTo (getEscalationRules db (department t) ! escalationLevel t),
                         escalatedBy = who, reason = why, escalatedAt = now \<rparr>],
                    updatedAt := now\<rparr>"
  shows "snd (escalateTicket db now i who why) = Inr (Some t1)"
    and "getTicketById (fst (escalateTicket db now i who why)) i =
           Some (t1\<lparr>internalNotes := internalNotes t @
                      [\<lparr> note_content = ''Ticket escalated to level '' @ showNat (Suc (escalationLevel t)) @ '': '' @ why,
                         addedBy = who, addedAt = now \<rparr>]\<rparr>)"
proof -
  define u where "u = (\<lambda>old::Ticket. old\<lparr>isEscalated := True, escalationLevel := Suc (escalationLevel t),
                        status := ESCALATED,
                        assignedTo := Some (escalateTo (getEscalationRules db (department t) ! escalationLevel t)),
                        escalationHistory := escalationHistory t @
                          [\<lparr> level = Suc (escalationLevel t),
                             escalatedTo = escalateTo (getEscalationRules db (department t) ! escalationLevel t),
                             escalatedBy = who, reason = why, escalatedAt = now \<rparr>]\<rparr>)"
  have ut: "(u t)\<lparr>updatedAt := now\<rparr> = t1"
    by (simp add: u_def t1_def)
  have keep: "\<And>old. ticketId (u old) = ticketId old"
    by (simp add: u_def)
  have e: "escalateTicket db now i who why =
             (fst (addInternalNote (fst (db_update db now i u)) now i
                     (''Ticket escalated to level '' @ showNat (Suc (escalationLevel t)) @ '': '' @ why) who),
              Inr (Some t1))"
    using escalateTicket_unfold [OF found below, of now who why] ut
    by (simp add: Let_def u_def)
  show "snd (escalateTicket db now i who why) = Inr (Some t1)"
    by (simp add: e)
  have "getTicketById (fst (db_update db now i u)) i = Some t1"
    using db_update_same [OF found keep, of now] ut by simp
  from addInternalNote_same [OF this]
  show "getTicketById (fst (escalateTicket db now i who why)) i =
           Some (t1\<lparr>internalNotes := internalNotes t @
                      [\<lparr> note_content = ''Ticket escalated to level '' @ showNat (Suc (escalationLevel t)) @ '': '' @ why,
                         addedBy = who, addedAt = now \<rparr>]\<rparr>)"
    by (simp add: e t1_def)
qed

lemma escalateTicket_other:
  assumes "j \<noteq> i"
  shows "getTicketById (fst (escalateTicket db now i who why)) j = getTicketById db j"
proof (cases "getTicketById db i")
  case None
  then show ?thesis by (simp add: escalateTicket_missing)
next
  case (Some t)
  show ?thesis
  proof (cases "escalationLevel t < length (getEscalationRules db (department t))")
    case False
    then show ?thesis using Some by (simp add: escalateTicket_max)
  next
    case True
    show ?thesis
      unfolding escalateTicket_unfold [OF Some True] Let_def
      using assms by (simp add: addInternalNote_other db_update_other)
  qed
qed

lemma escalateTicket_ids:
  "map ticketId (tickets (fst (escalateTicket db now i who why))) = map ticketId (tickets db)"
proof (cases "getTicketById db i")
  case None
  then show ?thesis by (simp add: escalateTicket_missing)
next
  case (Some t)
  show ?thesis
  proof (cases "escalationLevel t < length (getEscalationRules db (department t))")
    case False
    then show ?thesis using Some by (simp add: escalateTicket_max)
  next
    case True
    show ?thesis
      unfolding escalateTicket_unfold [OF Some True] Let_def
      by (simp add: addInternalNote_ids db_update_ids)
  qed
qed

lemma statusUpdates_id: "ticketId (statusUpdates now st old) = ticketId old"
  by (simp add: statusUpdates_def)

lemma updateTicketStatus_missing:
  "getTicketById db i = None \<Longrightarrow> updateTicketStatus db now i st who why = (db, None)"
  by (simp add: updateTicketStatus_def db_update_missing)

lemma updateTicketStatus_found:
  fixes now :: int and st :: TicketStatus
  assumes found: "getTicketById db i = Some t"
  defines "t1 \<equiv> (statusUpdates now st t)\<lparr>updatedAt := now\<rparr>"
  shows "snd (updateTicketStatus db now i st who why) = Some t1"
    and "getTicketById (fst (updateTicketStatus db now i st who why)) i =
           Some (if why \<noteq> None \<and> why \<noteq> Some []
                 then t1\<lparr>internalNotes := internalNotes t1 @
                            [\<lparr> note_content = ''Status changed to '' @ statusString st @ '': '' @ the why,
                               addedBy = who, addedAt = now \<rparr>]\<rparr>
                 else t1)"
proof -
  have u: "db_update db now i (statusUpdates now st) = (fst (db_update db now i (statusUpdates now st)), Some t1)"
    using found by (simp add: db_update_found t1_def)
  have g: "getTicketById (fst (db_update db now i (statusUpdates now st))) i = Some t1"
    using db_update_same [OF found statusUpdates_id] by (simp add: t1_def)
  show "snd (updateTicketStatus db now i st who why) = Some t1"
    unfolding updateTicketStatus_def by (subst u) (simp add: Let_def)
  show "getTicketById (fst (updateTicketStatus db now i st who why)) i =
           Some (if why \<noteq> None \<and> why \<noteq> Some []
                 then t1\<lparr>internalNotes := internalNotes t1 @
                            [\<lparr> note_content = ''Status changed to '' @ statusString st @ '': '' @ the why,
                               addedBy = who, addedAt = now \<rparr>]\<rparr>
                 else t1)"
    unfolding updateTicketStatus_def
    by (subst u) (simp add: Let_def g addInternalNote_same [OF g] t1_def)
qed

lemma updateTicketStatus_ids:
  "map ticketId (tickets (fst (updateTicketStatus db now i st who why))) = map ticketId (tickets db)"
  by (simp add: updateTicketStatus_def Let_def case_prod_beta addInternalNote_ids db_update_ids
      statusUpdates_id)

lemma updateTicketStatus_other:
  "j \<noteq> i \<Longrightarrow> getTicketById (fst (updateTicketStatus db now i st who why)) j = getTicketById db j"
  by (simp add: updateTicketStatus_def Let_def case_prod_beta addInternalNote_other db_update_other
      statusUpdates_id)


section \<open>Lemmas about the sweep loop\<close>

lemma escalateTicket_rules:
  "escalationRules (fst (escalateTicket db now i who why)) = escalationRules db"
proof (cases "getTicketById db i")
  case None
  then show ?thesis by (simp add: escalateTicket_missing)
next
  case (Some t)
  show ?thesis
  proof (cases "escalationLevel t < length (getEscalationRules db (department t))")
    case False
    then show ?thesis using Some by (simp add: escalateTicket_max)
  next
    case True
    show ?thesis
      unfolding escalateTicket_unfold [OF Some True] Let_def
      by (simp add: addInternalNote_rules db_update_rules)
  qed
qed

lemma getEscalationRules_cong:
  "escalationRules db' = escalationRules db \<Longrightarrow> getEscalationRules db' d = getEscalationRules db d"
  by (simp add: getEscalationRules_def)

lemma same_id_same_ticket:
  "distinct (map ticketId ts) \<Longrightarrow> x \<in> set ts \<Longrightarrow> t \<in> set ts \<Longrightarrow> ticketId x = ticketId t \<Longrightarrow> x = t"
  by (simp add: distinct_map inj_on_def)

lemma sweepTicket_db:
  "fst (sweepTicket zone now db evs x) =
     (if leNumber (resolutionTimeRemaining (calculateSLA zone now x)) 1 \<and> \<not> isEscalated x
      then fst (escalateTicket db now (ticketId x) ''system'' ''Auto-escalated due to SLA breach risk'')
      else db)"
  by (simp add: sweepTicket_def Let_def case_prod_beta split: prod.splits sum.splits)

lemma sweepTicket_warning:
  "SLAWarning j k \<in> set (snd (sweepTicket zone now db evs x)) \<longleftrightarrow>
     SLAWarning j k \<in> set evs
     \<or> (j = ticketId x
        \<and> (k = ResponseWarning \<and> leNumber (responseTimeRemaining (calculateSLA zone now x)) (1 / 2)
              \<and> responses x = []
           \<or> k = ResolutionWarning \<and> leNumber (resolutionTimeRemaining (calculateSLA zone now x)) 2
              \<and> resolvedAt x = None))"
  by (auto simp add: sweepTicket_def Let_def case_prod_beta split: prod.splits sum.splits)

lemma sweepTicket_failed:
  "EscalationFailed j e \<in> set (snd (sweepTicket zone now db evs x)) \<Longrightarrow>
     EscalationFailed j e \<in> set evs
     \<or> (j = ticketId x \<and> leNumber (resolutionTimeRemaining (calculateSLA zone now x)) 1 \<and> \<not> isEscalated x)"
  by (auto simp add: sweepTicket_def Let_def case_prod_beta split: prod.splits sum.splits if_splits)

lemma sweepTicket_lookup:
  assumes "leNumber (resolutionTimeRemaining (calculateSLA zone now x)) 1 \<and> \<not> isEscalated x \<longrightarrow> ticketId x \<noteq> j"
  shows "getTicketById (fst (sweepTicket zone now db evs x)) j = getTicketById db j"
proof (cases "leNumber (resolutionTimeRemaining (calculateSLA zone now x)) 1 \<and> \<not> isEscalated x")
  case True
  then have "j \<noteq> ticketId x" using assms by auto
  then show ?thesis using True by (simp add: sweepTicket_db escalateTicket_other)
next
  case False
  then show ?thesis by (auto simp add: sweepTicket_db)
qed

lemma sweepTicket_rules:
  "escalationRules (fst (sweepTicket zone now db evs x)) = escalationRules db"
  by (simp add: sweepTicket_db escalateTicket_rules)

lemma sweepLoop_lookup:
  assumes "\<forall>x \<in> set xs. leNumber (resolutionTimeRemaining (calculateSLA zone now x)) 1 \<and> \<not> isEscalated x
             \<longrightarrow> ticketId x \<noteq> j"
  shows "getTicketById (fst (sweepLoop zone now xs db evs)) j = getTicketById db j"
  using assms
proof (induction xs arbitrary: db evs)
  case Nil
  then show ?case by simp
next
  case (Cons x xs)
  obtain db' evs' where st: "sweepTicket zone now db evs x = (db', evs')"
    by (cases "sweepTicket zone now db evs x")
  have "getTicketById db' j = getTicketById db j"
    using sweepTicket_lookup [of zone now x j db evs] Cons.prems st by simp
  moreover have "getTicketById (fst (sweepLoop zone now xs db' evs')) j = getTicketById db' j"
    using Cons.IH Cons.prems by simp
  ultimately show ?case by (simp add: st)
qed

lemma sweepLoop_rules:
  "escalationRules (fst (sweepLoop zone now xs db evs)) = escalationRules db"
proof (induction xs arbitrary: db evs)
  case Nil
  then show ?case by simp
next
  case (Cons x xs)
  obtain db' evs' where st: "sweepTicket zone now db evs x = (db', evs')"
    by (cases "sweepTicket zone now db evs x")
  have "escalationRules db' = escalationRules db"
    using sweepTicket_rules [of zone now db evs x] st by simp
  then show ?case using Cons.IH [of db' evs'] by (simp add: st)
qed

lemma sweepLoop_warning:
  "SLAWarning j k \<in> set (snd (sweepLoop zone now xs db evs)) \<longleftrightarrow>
     SLAWarning j k \<in> set evs
     \<or> (\<exists>x \<in> set xs. j = ticketId x
        \<and> (k = ResponseWarning \<and> leNumber (responseTimeRemaining (calculateSLA zone now x)) (1 / 2)
              \<and> responses x = []
           \<or> k = ResolutionWarning \<and> leNumber (resolutionTimeRemaining (calculateSLA zone now x)) 2
              \<and> resolvedAt x = None))"
proof (induction xs arbitrary: db evs)
  case Nil
  then show ?case by simp
next
  case (Cons x xs)
  obtain db' evs' where st: "sweepTicket zone now db evs x = (db', evs')"
    by (cases "sweepTicket zone now db evs x")
  have "SLAWarning j k \<in> set evs' \<longleftrightarrow>
     SLAWarning j k \<in> set evs
     \<or> (j = ticketId x
        \<and> (k = ResponseWarning \<and> leNumber (responseTimeRemaining (calculateSLA zone now x)) (1 / 2)
              \<and> responses x = []
           \<or> k = ResolutionWarning \<and> leNumber (resolutionTimeRemaining (calculateSLA zone now x)) 2
              \<and> resolvedAt x = None))"
    using sweepTicket_warning [of j k zone now db evs x] st by simp
  then show ?case
    using Cons.IH [of db' evs'] by (simp add: st)
qed

lemma sweepLoop_failed:
  "EscalationFailed j e \<in> set (snd (sweepLoop zone now xs db evs)) \<Longrightarrow>
     EscalationFailed j e \<in> set evs
     \<or> (\<exists>x \<in> set xs. j = ticketId x \<and> leNumber (resolutionTimeRemaining (calculateSLA zone now x)) 1
           \<and> \<not> isEscalated x)"
proof (induction xs arbitrary: db evs)
  case Nil
  then show ?case by simp
next
  case (Cons x xs)
  obtain db' evs' where st: "sweepTicket zone now db evs x = (db', evs')"
    by (cases "sweepTicket zone now db evs x")
  from Cons.prems have "EscalationFailed j e \<in> set (snd (sweepLoop zone now xs db' evs'))"
    by (simp add: st)
  from Cons.IH [OF this] show ?case
    using sweepTicket_failed [of j e zone now db evs x] st by auto
qed

lemma sweepLoop_escalates:
  assumes "distinct (map ticketId xs)" and "t \<in> set xs"
    and "getTicketById db (ticketId t) = Some t"
    and "leNumber (resolutionTimeRemaining (calculateSLA zone now t)) 1" and "\<not> isEscalated t"
    and "escalationLevel t < length (getEscalationRules db (department t))"
  shows "\<exists>t'. getTicketById (fst (sweepLoop zone now xs db evs)) (ticketId t) = Some t'
           \<and> status t' = ESCALATED \<and> isEscalated t'
           \<and> escalationLevel t' = Suc (escalationLevel t)
           \<and> length (escalationHistory t') = Suc (length (escalationHistory t))"
  using assms
proof (induction xs arbitrary: db evs)
  case Nil
  then show ?case by simp
next
  case (Cons x xs)
  obtain db' evs' where st: "sweepTicket zone now db evs x = (db', evs')"
    by (cases "sweepTicket zone now db evs x")
  have db': "db' = fst (sweepTicket zone now db evs x)"
    by (simp add: st)
  show ?case
  proof (cases "x = t")
    case True
    have notin: "\<forall>y \<in> set xs. ticketId y \<noteq> ticketId t"
      using Cons.prems(1) True by (auto simp add: image_iff)
    have esc: "db' = fst (escalateTicket db now (ticketId t) ''system''
                            ''Auto-escalated due to SLA breach risk'')"
      using Cons.prems(4,5) True by (simp add: db' sweepTicket_db)
    have later: "getTicketById (fst (sweepLoop zone now xs db' evs')) (ticketId t)
                   = getTicketById db' (ticketId t)"
      by (rule sweepLoop_lookup) (use notin in auto)
    have "\<exists>t'. getTicketById db' (ticketId t) = Some t'
           \<and> status t' = ESCALATED \<and> isEscalated t'
           \<and> escalationLevel t' = Suc (escalationLevel t)
           \<and> length (escalationHistory t') = Suc (length (escalationHistory t))"
      unfolding esc escalateTicket_ok(2) [OF Cons.prems(3) Cons.prems(6)] by simp
    then show ?thesis
      using later by (simp add: st)
  next
    case False
    then have tin: "t \<in> set xs" using Cons.prems(2) by simp
    then have neq: "ticketId t \<noteq> ticketId x"
      using Cons.prems(1) by (auto simp add: image_iff)
    have keep: "getTicketById db' (ticketId t) = Some t"
      using Cons.prems(3) neq by (simp add: db' sweepTicket_db escalateTicket_other)
    have rules: "getEscalationRules db' (department t) = getEscalationRules db (department t)"
      by (rule getEscalationRules_cong) (simp add: db' sweepTicket_rules)
    have "\<exists>t'. getTicketById (fst (sweepLoop zone now xs db' evs')) (ticketId t) = Some t'
           \<and> status t' = ESCALATED \<and> isEscalated t'
           \<and> escalationLevel t' = Suc (escalationLevel t)
           \<and> length (escalationHistory t') = Suc (length (escalationHistory t))"
      using Cons.IH [of db' evs'] Cons.prems(1,4,5,6) tin keep rules by simp
    then show ?thesis by (simp add: st)
  qed
qed

lemma openTickets_member:
  "x \<in> set (openTickets db) \<longleftrightarrow> x \<in> set (tickets db) \<and> (status x = OPEN \<or> status x = IN_PROGRESS)"
  by (auto simp add: openTickets_def)

lemma openTickets_distinct:
  "distinct (map ticketId (tickets db)) \<Longrightarrow> distinct (map ticketId (openTickets db))"
  by (simp add: openTickets_def distinct_map_filter)

section \<open>Escalation\<close>

text \<open>
  C2. For a ticket whose \<open>escalationLevel\<close> equals the length of the escalation
  ladder of its department (what \<open>getEscalationRules\<close> returns), \<open>escalateTicket\<close> fails
  with \<open>MaxEscalationLevelReached\<close> and the database is the one before the call, so the
  ticket, with its level, status, assignee and escalation history, is unchanged.
\<close>

theorem escalate_at_top_level_fails:
  assumes "getTicketById db tid = Some t"
    and "escalationLevel t = length (getEscalationRules db (department t))"
  shows "escalateTicket db now tid who why = (db, Inl MaxEscalationLevelReached)
         \<and> getTicketById (fst (escalateTicket db now tid who why)) tid = Some t"
  using assms by (simp add: escalateTicket_max)

theorem escalate_at_top_level_fails_witness:
  "getTicketById (exampleDb [topLevelTicket]) ''t1'' = Some topLevelTicket
   \<and> escalationLevel topLevelTicket
       = length (getEscalationRules (exampleDb [topLevelTicket]) (department topLevelTicket))
   \<and> escalateTicket (exampleDb [topLevelTicket]) 5 ''t1'' ''agent'' ''again''
       = (exampleDb [topLevelTicket], Inl MaxEscalationLevelReached)
   \<and> getTicketById (fst (escalateTicket (exampleDb [topLevelTicket]) 5 ''t1'' ''agent'' ''again'')) ''t1''
       = Some topLevelTicket"
proof -
  have h1: "getTicketById (exampleDb [topLevelTicket]) ''t1'' = Some topLevelTicket"
    by (simp add: getTicketById_def findById_def exampleDb_def topLevelTicket_def exampleTicket_def)
  have h2: "escalationLevel topLevelTicket
       = length (getEscalationRules (exampleDb [topLevelTicket]) (department topLevelTicket))"
    by (simp add: getEscalationRules_def defaultEscalationRules_def exampleDb_def topLevelTicket_def)
  show ?thesis
    using h1 h2 escalate_at_top_level_fails [OF h1 h2, of 5 "''agent''" "''again''"] by simp
qed

text \<open>
  C9, as amended. A ticket in a terminal status is not immutable: \<open>escalateTicket\<close> does
  not read the status, so on a \<open>CLOSED\<close> or \<open>CANCELLED\<close> ticket below the top of the
  ladder it succeeds, sets the status to \<open>ESCALATED\<close>, increments \<open>escalationLevel\<close>,
  reassigns the ticket to the recipient of the new level and appends an escalation
  record.
\<close>

theorem escalate_ignores_terminal_status:
  assumes "getTicketById db tid = Some t"
    and "status t = CLOSED \<or> status t = CANCELLED"
    and "escalationLevel t < length (getEscalationRules db (department t))"
  shows "\<exists>t'. getTicketById (fst (escalateTicket db now tid who why)) tid = Some t'
           \<and> status t' = ESCALATED \<and> isEscalated t'
           \<and> escalationLevel t' = Suc (escalationLevel t)
           \<and> assignedTo t' = Some (escalateTo (getEscalationRules db (department t) ! escalationLevel t))
           \<and> escalationHistory t' = escalationHistory t @
                [\<lparr> level = Suc (escalationLevel t),
                   escalatedTo = escalateTo (getEscalationRules db (department t) ! escalationLevel t),
                   escalatedBy = who, reason = why, escalatedAt = now \<rparr>]"
  unfolding escalateTicket_ok(2) [OF assms(1) assms(3)] by simp

theorem escalate_ignores_terminal_status_witness:
  "getTicketById (exampleDb [closedTicket]) ''t1'' = Some closedTicket
   \<and> status closedTicket = CLOSED
   \<and> escalationLevel closedTicket
        < length (getEscalationRules (exampleDb [closedTicket]) (department closedTicket))
   \<and> map_option status
        (getTicketById (fst (escalateTicket (exampleDb [closedTicket]) 5 ''t1'' ''agent'' ''late'')) ''t1'')
       = Some ESCALATED"
proof -
  have h1: "getTicketById (exampleDb [closedTicket]) ''t1'' = Some closedTicket"
    by (simp add: getTicketById_def findById_def exampleDb_def closedTicket_def exampleTicket_def)
  have h2: "status closedTicket = CLOSED \<or> status closedTicket = CANCELLED"
    by (simp add: closedTicket_def)
  have h3: "escalationLevel closedTicket
        < length (getEscalationRules (exampleDb [closedTicket]) (department closedTicket))"
    by (simp add: getEscalationRules_def defaultEscalationRules_def exampleDb_def closedTicket_def
        exampleTicket_def)
  show ?thesis
    using h1 h2 h3 escalate_ignores_terminal_status [OF h1 h2 h3, of 5 "''agent''" "''late''"]
    by (auto simp add: closedTicket_def)
qed

text \<open>
  The claim as stated fails: escalating a \<open>CLOSED\<close> ticket at level 0 changes its
  status, level, assignee and history.
\<close>

theorem escalate_terminal_counterexample:
  "map_option status (getTicketById (exampleDb [closedTicket]) ''t1'') = Some CLOSED
   \<and> map_option escalationLevel (getTicketById (exampleDb [closedTicket]) ''t1'') = Some 0
   \<and> map_option assignedTo (getTicketById (exampleDb [closedTicket]) ''t1'') = Some None
   \<and> map_option escalationHistory (getTicketById (exampleDb [closedTicket]) ''t1'') = Some []
   \<and> map_option status
        (getTicketById (fst (escalateTicket (exampleDb [closedTicket]) 5 ''t1'' ''agent'' ''late'')) ''t1'')
       = Some ESCALATED
   \<and> map_option escalationLevel
        (getTicketById (fst (escalateTicket (exampleDb [closedTicket]) 5 ''t1'' ''agent'' ''late'')) ''t1'')
       = Some 1
   \<and> map_option assignedTo
        (getTicketById (fst (escalateTicket (exampleDb [closedTicket]) 5 ''t1'' ''agent'' ''late'')) ''t1'')
       = Some (Some ''manager'')
   \<and> map_option escalationHistory
        (getTicketById (fst (escalateTicket (exampleDb [closedTicket]) 5 ''t1'' ''agent'' ''late'')) ''t1'')
       = Some [\<lparr> level = 1, escalatedTo = ''manager'', escalatedBy = ''agent'', reason = ''late'',
                   escalatedAt = 5 \<rparr>]"
  by code_simp

section \<open>Status updates\<close>

text \<open>
  C3, as amended. \<open>updateTicketStatus\<close> has no transition table: for an existing ticket
  every requested status is accepted, whatever the current status; the returned ticket
  and the stored ticket carry the requested status.
\<close>

theorem status_update_accepts_every_transition:
  assumes "getTicketById db tid = Some t"
  shows "\<exists>t'. snd (updateTicketStatus db now tid st who why) = Some t' \<and> status t' = st
           \<and> (\<exists>t''. getTicketById (fst (updateTicketStatus db now tid st who why)) tid = Some t''
                 \<and> status t'' = st)"
  unfolding updateTicketStatus_found [OF assms] by (simp add: statusUpdates_def)

theorem status_update_accepts_every_transition_witness:
  "getTicketById (exampleDb [exampleTicket]) ''t1'' = Some exampleTicket
   \<and> map_option status (snd (updateTicketStatus (exampleDb [exampleTicket]) 5 ''t1'' ON_HOLD ''agent'' None))
       = Some ON_HOLD
   \<and> map_option status
        (getTicketById (fst (updateTicketStatus (exampleDb [exampleTicket]) 5 ''t1'' ON_HOLD ''agent'' None)) ''t1'')
       = Some ON_HOLD"
proof -
  have h1: "getTicketById (exampleDb [exampleTicket]) ''t1'' = Some exampleTicket"
    by (simp add: getTicketById_def findById_def exampleDb_def exampleTicket_def)
  show ?thesis
    using h1 status_update_accepts_every_transition [OF h1, of 5 ON_HOLD "''agent''" None]
    by auto
qed

text \<open>
  The claim as stated fails: a \<open>CLOSED\<close> ticket moved to \<open>IN_PROGRESS\<close> is returned and
  stored with status \<open>IN_PROGRESS\<close>.
\<close>

theorem closed_to_in_progress_counterexample:
  "map_option status (getTicketById (exampleDb [closedTicket]) ''t1'') = Some CLOSED
   \<and> map_option status
        (snd (updateTicketStatus (exampleDb [closedTicket]) 5 ''t1'' IN_PROGRESS ''agent'' None))
       = Some IN_PROGRESS
   \<and> map_option status
        (getTicketById (fst (updateTicketStatus (exampleDb [closedTicket]) 5 ''t1'' IN_PROGRESS ''agent'' None)) ''t1'')
       = Some IN_PROGRESS"
  by code_simp

text \<open>
  C8, as amended. A status update sets \<open>resolvedAt\<close> to the time of the update when
  the requested status is \<open>RESOLVED\<close>, and leaves \<open>resolvedAt\<close> as it was for every
  other requested status; no status update clears it, so reopening a \<open>RESOLVED\<close> ticket
  to \<open>IN_PROGRESS\<close> keeps its \<open>resolvedAt\<close>.
\<close>

theorem status_update_resolvedAt:
  assumes "getTicketById db tid = Some t"
  shows "\<exists>t'. getTicketById (fst (updateTicketStatus db now tid st who why)) tid = Some t'
           \<and> status t' = st
           \<and> resolvedAt t' = (if st = RESOLVED then Some now else resolvedAt t)"
  unfolding updateTicketStatus_found(2) [OF assms] by (simp add: statusUpdates_def)

theorem status_update_resolvedAt_witness:
  "getTicketById (exampleDb [exampleTicket]) ''t1'' = Some exampleTicket
   \<and> map_option status
        (getTicketById (fst (updateTicketStatus (exampleDb [exampleTicket]) 7 ''t1'' RESOLVED ''agent'' None)) ''t1'')
       = Some RESOLVED
   \<and> map_option resolvedAt
        (getTicketById (fst (updateTicketStatus (exampleDb [exampleTicket]) 7 ''t1'' RESOLVED ''agent'' None)) ''t1'')
       = Some (Some 7)"
proof -
  have h1: "getTicketById (exampleDb [exampleTicket]) ''t1'' = Some exampleTicket"
    by (simp add: getTicketById_def findById_def exampleDb_def exampleTicket_def)
  show ?thesis
    using h1 status_update_resolvedAt [OF h1, of 7 RESOLVED "''agent''" None]
    by auto
qed

text \<open>
  The claim as stated fails: a reopened ticket is \<open>IN_PROGRESS\<close> with \<open>resolvedAt\<close>
  still set.
\<close>

theorem reopen_keeps_resolvedAt_counterexample:
  "map_option status (getTicketById (exampleDb [resolvedTicket]) ''t1'') = Some RESOLVED
   \<and> map_option resolvedAt (getTicketById (exampleDb [resolvedTicket]) ''t1'') = Some (Some 3)
   \<and> map_option status
        (getTicketById (fst (updateTicketStatus (exampleDb [resolvedTicket]) 5 ''t1'' IN_PROGRESS ''agent'' None)) ''t1'')
       = Some IN_PROGRESS
   \<and> map_option resolvedAt
        (getTicketById (fst (updateTicketStatus (exampleDb [resolvedTicket]) 5 ''t1'' IN_PROGRESS ''agent'' None)) ''t1'')
       = Some (Some 3)"
  by code_simp

section \<open>Pause state and calendar\<close>

text \<open>
  C4, as amended. The deadline computation does not read the pause state of the policy:
  whatever \<open>isPaused\<close>, \<open>pauseReason\<close>, \<open>pausedAt\<close> and \<open>resumedAt\<close> hold, the
  \<open>resolutionDeadline\<close> (and the \<open>responseDeadline\<close>) is the one computed for the same
  ticket under the policy as it was; a policy paused for a duration \<open>P\<close> and resumed gives
  the same deadline as a never-paused one, not one shifted by \<open>P\<close>.
\<close>

theorem deadlines_ignore_pause:
  "resolutionDeadline
     (calculateSLA zone now
        (ticket\<lparr>slaConfig := (slaConfig ticket)\<lparr>isPaused := p, pauseReason := pr,
                                                  pausedAt := pa, resumedAt := ra\<rparr>\<rparr>))
     = resolutionDeadline (calculateSLA zone now ticket)
   \<and> responseDeadline
     (calculateSLA zone now
        (ticket\<lparr>slaConfig := (slaConfig ticket)\<lparr>isPaused := p, pauseReason := pr,
                                                  pausedAt := pa, resumedAt := ra\<rparr>\<rparr>))
     = responseDeadline (calculateSLA zone now ticket)"
  by (simp add: calculateSLA_def Let_def addWorkingHours_def)

text \<open>
  The claim as stated fails: the policy paused for one hour (3600000 ms) and resumed
  gives the resolution deadline of the never-paused policy, not one an hour later.
\<close>

theorem pause_shift_counterexample:
  "pausedAt pausedPolicy = Some 0 \<and> resumedAt pausedPolicy = Some 3600000
   \<and> pausedAt getDefaultSLAConfig = None \<and> resumedAt getDefaultSLAConfig = None
   \<and> resolutionDeadline (calculateSLA utcZone 0 (exampleTicket\<lparr>slaConfig := getDefaultSLAConfig\<rparr>))
       = Some 86400000
   \<and> resolutionDeadline (calculateSLA utcZone 0 (exampleTicket\<lparr>slaConfig := pausedPolicy\<rparr>))
       = Some 86400000
   \<and> resolutionDeadline (calculateSLA utcZone 0 (exampleTicket\<lparr>slaConfig := pausedPolicy\<rparr>))
      \<noteq> Some (86400000 + 3600000)"
  by code_simp

text \<open>
  C5, as amended. The deadline computation does not read the working hours or the
  holidays of the policy: \<open>responseDeadline\<close> and \<open>resolutionDeadline\<close> are the same
  whatever \<open>workingHours\<close> and \<open>holidays\<close> hold; neither a working window nor a
  configured holiday moves a deadline.
\<close>

theorem deadlines_ignore_calendar:
  "responseDeadline
     (calculateSLA zone now
        (ticket\<lparr>slaConfig := (slaConfig ticket)\<lparr>workingHours := wh, holidays := hs\<rparr>\<rparr>))
     = responseDeadline (calculateSLA zone now ticket)
   \<and> resolutionDeadline
     (calculateSLA zone now
        (ticket\<lparr>slaConfig := (slaConfig ticket)\<lparr>workingHours := wh, holidays := hs\<rparr>\<rparr>))
     = resolutionDeadline (calculateSLA zone now ticket)"
  by (simp add: calculateSLA_def Let_def addWorkingHours_def)

text \<open>
  The claim as stated fails: for a ticket created at midnight of a configured holiday
  with a response budget of two hours, the response deadline is two hours later, on the
  holiday and before the working window opens; the working duration of the Calendar
  between creation and deadline is zero minutes, not the 120 minutes of the budget.
\<close>

theorem holiday_counterexample:
  "workingHours holidayPolicy \<noteq> None
   \<and> holidays holidayPolicy = [0]
   \<and> isHoliday utcZone holidayPolicy (createdAt (exampleTicket\<lparr>slaConfig := holidayPolicy\<rparr>))
   \<and> responseTimeHours holidayPolicy * 60 = 120
   \<and> responseDeadline (calculateSLA utcZone 0 (exampleTicket\<lparr>slaConfig := holidayPolicy\<rparr>))
       = Some 7200000
   \<and> workingDurationBetween utcZone holidayPolicy
        (createdAt (exampleTicket\<lparr>slaConfig := holidayPolicy\<rparr>)) 7200000 = 0"
  by code_simp

section \<open>Lemmas about ticket creation\<close>

lemma addTicketResponse_same:
  assumes "getTicketById db i = Some t"
  shows "getTicketById (fst (addTicketResponse db now i txt who recipient chan automated)) i =
           Some (t\<lparr>responses := responses t @
                      [\<lparr> content = txt, sentBy = who, sentTo = recipient, channel = chan,
                         isAutomated = automated, sentAt = now \<rparr>],
                    updatedAt := now\<rparr>)"
  using assms
    db_update_same [OF assms, of "\<lambda>old. old\<lparr>responses := responses t @
                      [\<lparr> content = txt, sentBy = who, sentTo = recipient, channel = chan,
                         isAutomated = automated, sentAt = now \<rparr>]\<rparr>" now]
  by (simp add: addTicketResponse_def Let_def case_prod_beta)

lemma addTicketResponse_ids:
  "map ticketId (tickets (fst (addTicketResponse db now i txt who recipient chan automated)))
     = map ticketId (tickets db)"
proof (cases "getTicketById db i")
  case None
  then show ?thesis by (simp add: addTicketResponse_def)
next
  case (Some t)
  show ?thesis
    using Some db_update_ids [of "\<lambda>old. old\<lparr>responses := responses t @
                      [\<lparr> content = txt, sentBy = who, sentTo = recipient, channel = chan,
                         isAutomated = automated, sentAt = now \<rparr>]\<rparr>" db now i]
    by (simp add: addTicketResponse_def Let_def case_prod_beta)
qed

lemma generateSmartReplies_nonempty:
  "generateSmartReplies c txt = hd (generateSmartReplies c txt) # tl (generateSmartReplies c txt)"
  by (cases c) simp_all

lemma find_fresh_append:
  "i \<notin> ticketId ` set ts \<Longrightarrow> ticketId item = i
   \<Longrightarrow> find (\<lambda>item. ticketId item = i) (ts @ [item]) = Some item"
  by (induction ts) auto

lemma db_create_lookup:
  assumes "newId \<notin> ticketId ` set (tickets db)"
  shows "getTicketById (fst (db_create db now newId data)) newId = Some (snd (db_create db now newId data))"
  using assms find_fresh_append [of newId "tickets db" "data\<lparr>ticketId := newId, createdAt := now, updatedAt := now\<rparr>"]
  by (simp add: db_create_def Let_def getTicketById_def findById_def)

lemma db_create_ids:
  "map ticketId (tickets (fst (db_create db now newId data))) = map ticketId (tickets db) @ [newId]"
  by (simp add: db_create_def Let_def)

lemma sendAutoResponse_same:
  assumes "getTicketById db (ticketId t) = Some t"
  shows "getTicketById (sendAutoResponse db now t) (ticketId t) =
           Some (t\<lparr>responses := responses t @
                      [\<lparr> content = hd (generateSmartReplies (category t) (description t)),
                         sentBy = ''system'', sentTo = Guest, channel = Email,
                         isAutomated = True, sentAt = now \<rparr>],
                    updatedAt := now\<rparr>)"
  unfolding sendAutoResponse_def
  by (subst generateSmartReplies_nonempty) (simp add: addTicketResponse_same [OF assms])

lemma sendAutoResponse_ids:
  "map ticketId (tickets (sendAutoResponse db now t)) = map ticketId (tickets db)"
  unfolding sendAutoResponse_def
  by (subst generateSmartReplies_nonempty) (simp add: addTicketResponse_ids)

lemma createTicket_ids:
  "map ticketId (tickets (fst (createTicket db now nowReply newId cat data)))
     = map ticketId (tickets db) @ [newId]"
  by (simp add: createTicket_def Let_def case_prod_beta sendAutoResponse_ids db_create_ids)

lemma createTicket_lookup:
  assumes "newId \<notin> ticketId ` set (tickets db)"
  shows "\<exists>t r. getTicketById (fst (createTicket db now nowReply newId cat data)) newId = Some t
           \<and> responses t = [r] \<and> isAutomated r \<and> sentBy r = ''system'' \<and> sentAt r = nowReply
           \<and> createdAt t = now \<and> status t = OPEN"
proof -
  define ticket where "ticket = snd (createTicket db now nowReply newId cat data)"
  define db1 where "db1 = fst (db_create db now newId (ticket\<lparr>ticketId := []\<rparr>))"
  have saved: "ticketId ticket = newId" "responses ticket = []" "createdAt ticket = now"
    "status ticket = OPEN"
    by (simp_all add: ticket_def createTicket_def Let_def case_prod_beta db_create_def)
  have "getTicketById db1 newId = Some (snd (db_create db now newId (ticket\<lparr>ticketId := []\<rparr>)))"
    unfolding db1_def by (rule db_create_lookup [OF assms])
  moreover have "snd (db_create db now newId (ticket\<lparr>ticketId := []\<rparr>)) = ticket"
    by (simp add: ticket_def createTicket_def Let_def case_prod_beta db_create_def)
  ultimately have l: "getTicketById db1 (ticketId ticket) = Some ticket"
    by (simp add: saved)
  have "fst (createTicket db now nowReply newId cat data) = sendAutoResponse db1 nowReply ticket"
    by (simp add: db1_def ticket_def createTicket_def Let_def case_prod_beta db_create_def)
  then show ?thesis
    using sendAutoResponse_same [OF l, of nowReply] saved by simp
qed

section \<open>The breach sweep\<close>

text \<open>
  C1, as amended. A ticket whose \<open>isEscalated\<close> flag is set, or whose status is
  \<open>ESCALATED\<close>, is left exactly as it is by the breach sweep: no escalation record is
  appended and \<open>escalationLevel\<close> is unchanged. A status update does not reset the flag,
  so after an agent has moved an escalated ticket back to \<open>IN_PROGRESS\<close> the flag is
  still set, level and history are as before, and a later sweep leaves the ticket as
  the status update left it, however close its resolution deadline is.
\<close>

theorem sweep_skips_escalated_tickets:
  assumes "distinct (map ticketId (tickets db))" and "getTicketById db tid = Some t"
    and "isEscalated t \<or> status t = ESCALATED"
  shows "getTicketById (fst (checkSLABreaches zone now db)) tid = Some t
         \<and> (isEscalated t \<longrightarrow>
              (\<exists>t1. getTicketById (fst (updateTicketStatus db now1 tid IN_PROGRESS who why)) tid = Some t1
                 \<and> status t1 = IN_PROGRESS \<and> isEscalated t1
                 \<and> escalationLevel t1 = escalationLevel t
                 \<and> escalationHistory t1 = escalationHistory t
                 \<and> getTicketById
                      (fst (checkSLABreaches zone now
                              (fst (updateTicketStatus db now1 tid IN_PROGRESS who why)))) tid
                    = Some t1))"
proof -
  have skip: "getTicketById (fst (checkSLABreaches zone now d)) tid = Some u"
    if d: "distinct (map ticketId (tickets d))" and u: "getTicketById d tid = Some u"
      and e: "isEscalated u \<or> status u = ESCALATED" for d u
  proof -
    have uin: "u \<in> set (tickets d)" and uid: "ticketId u = tid"
      using u by (simp_all add: getTicketById_Some)
    have "\<forall>x \<in> set (openTickets d).
            leNumber (resolutionTimeRemaining (calculateSLA zone now x)) 1 \<and> \<not> isEscalated x
              \<longrightarrow> ticketId x \<noteq> tid"
    proof (intro ballI impI notI)
      fix x
      assume x: "x \<in> set (openTickets d)"
        and r: "leNumber (resolutionTimeRemaining (calculateSLA zone now x)) 1 \<and> \<not> isEscalated x"
        and i: "ticketId x = tid"
      have "x \<in> set (tickets d)" and o: "status x = OPEN \<or> status x = IN_PROGRESS"
        using x by (simp_all add: openTickets_member)
      then have "x = u"
        using same_id_same_ticket [OF d _ uin, of x] i uid by simp
      then show False using r o e by auto
    qed
    then have "getTicketById (fst (sweepLoop zone now (openTickets d) d [])) tid = getTicketById d tid"
      by (rule sweepLoop_lookup)
    then show ?thesis by (simp add: checkSLABreaches_def u)
  qed
  have first: "getTicketById (fst (checkSLABreaches zone now db)) tid = Some t"
    by (rule skip [OF assms])
  have second: "\<exists>t1. getTicketById (fst (updateTicketStatus db now1 tid IN_PROGRESS who why)) tid = Some t1
                 \<and> status t1 = IN_PROGRESS \<and> isEscalated t1
                 \<and> escalationLevel t1 = escalationLevel t
                 \<and> escalationHistory t1 = escalationHistory t
                 \<and> getTicketById
                      (fst (checkSLABreaches zone now
                              (fst (updateTicketStatus db now1 tid IN_PROGRESS who why)))) tid
                    = Some t1"
    if esc: "isEscalated t"
  proof -
    define db1 where "db1 = fst (updateTicketStatus db now1 tid IN_PROGRESS who why)"
    obtain t1 where t1: "getTicketById db1 tid = Some t1"
      and props: "status t1 = IN_PROGRESS" "isEscalated t1"
        "escalationLevel t1 = escalationLevel t" "escalationHistory t1 = escalationHistory t"
      unfolding db1_def updateTicketStatus_found(2) [OF assms(2)]
      using esc by (simp add: statusUpdates_def)
    have d1: "distinct (map ticketId (tickets db1))"
      using assms(1) by (simp add: db1_def updateTicketStatus_ids)
    have "getTicketById (fst (checkSLABreaches zone now db1)) tid = Some t1"
      using skip [OF d1 t1] props(2) by simp
    then show ?thesis
      using t1 props unfolding db1_def by simp
  qed
  show ?thesis using first second by simp
qed


theorem sweep_skips_escalated_tickets_witness:
  "distinct (map ticketId (tickets escalatedDb))
   \<and> getTicketById escalatedDb ''t1'' = Some (hd (tickets escalatedDb))
   \<and> isEscalated (hd (tickets escalatedDb))
   \<and> getTicketById (fst (checkSLABreaches utcZone 360000000 escalatedDb)) ''t1''
       = Some (hd (tickets escalatedDb))
   \<and> map_option escalationLevel
        (getTicketById (fst (checkSLABreaches utcZone 360000000 escalatedThenReopenedDb)) ''t1'')
       = Some (escalationLevel (hd (tickets escalatedDb)))"
proof -
  have h1: "distinct (map ticketId (tickets escalatedDb))"
    by code_simp
  have h2: "getTicketById escalatedDb ''t1'' = Some (hd (tickets escalatedDb))"
    by code_simp
  have h3: "isEscalated (hd (tickets escalatedDb))"
    by code_simp
  have h3': "isEscalated (hd (tickets escalatedDb)) \<or> status (hd (tickets escalatedDb)) = ESCALATED"
    using h3 by simp
  have r: "escalatedThenReopenedDb
             = fst (updateTicketStatus escalatedDb 6 ''t1'' IN_PROGRESS ''agent'' None)"
    by (simp add: escalatedThenReopenedDb_def escalatedDb_def)
  show ?thesis
    using h1 h2 h3
      sweep_skips_escalated_tickets [OF h1 h2 h3', of utcZone 360000000 6 "''agent''" None]
    by (auto simp add: r)
qed

text \<open>
  The claim as stated fails in its second part: a ticket that was escalated to level 1
  and then moved back to \<open>IN_PROGRESS\<close> is, 100 hours after its creation, at resolution
  risk (no time remaining) and one level below the top of the ladder; the sweep sends
  the warnings but does not escalate it again.
\<close>

theorem renewed_risk_counterexample:
  "map_option status (getTicketById escalatedThenReopenedDb ''t1'') = Some IN_PROGRESS
   \<and> map_option escalationLevel (getTicketById escalatedThenReopenedDb ''t1'') = Some 1
   \<and> map_option resolutionTimeRemaining
        (map_option (calculateSLA utcZone 360000000) (getTicketById escalatedThenReopenedDb ''t1''))
       = Some (Some 0)
   \<and> length (getEscalationRules escalatedThenReopenedDb ''Front Desk'') = 2
   \<and> snd (checkSLABreaches utcZone 360000000 escalatedThenReopenedDb)
       = [SLAWarning ''t1'' ResponseWarning, SLAWarning ''t1'' ResolutionWarning]
   \<and> map_option escalationLevel
        (getTicketById (fst (checkSLABreaches utcZone 360000000 escalatedThenReopenedDb)) ''t1'')
       = Some 1
   \<and> map_option escalationHistory
        (getTicketById (fst (checkSLABreaches utcZone 360000000 escalatedThenReopenedDb)) ''t1'')
       = map_option escalationHistory (getTicketById escalatedThenReopenedDb ''t1'')
   \<and> map_option status
        (getTicketById (fst (checkSLABreaches utcZone 360000000 escalatedThenReopenedDb)) ''t1'')
       = Some IN_PROGRESS"
  by code_simp

text \<open>
  C7, as amended. A run of the breach sweep evaluates exactly the tickets whose status
  is \<open>OPEN\<close> or \<open>IN_PROGRESS\<close>. Such a ticket draws a response warning exactly when its
  response time remaining is at most half an hour and it has no response, a resolution
  warning exactly when its resolution time remaining is at most two hours and it is
  unresolved, and is escalated one level when its resolution time remaining is at most
  one hour, it is not yet escalated and the ladder has a next level. A ticket in any
  other status (\<open>ON_HOLD\<close>, \<open>ESCALATED\<close>, \<open>RESOLVED\<close>, \<open>CLOSED\<close>, \<open>CANCELLED\<close>) is
  left as it is and draws no event.
\<close>

theorem sweep_evaluates_open_and_in_progress_only:
  assumes "distinct (map ticketId (tickets db))" and "t \<in> set (tickets db)"
  shows "if status t = OPEN \<or> status t = IN_PROGRESS
         then (SLAWarning (ticketId t) ResponseWarning \<in> set (snd (checkSLABreaches zone now db))
                 \<longleftrightarrow> leNumber (responseTimeRemaining (calculateSLA zone now t)) (1 / 2) \<and> responses t = [])
            \<and> (SLAWarning (ticketId t) ResolutionWarning \<in> set (snd (checkSLABreaches zone now db))
                 \<longleftrightarrow> leNumber (resolutionTimeRemaining (calculateSLA zone now t)) 2 \<and> resolvedAt t = None)
            \<and> (leNumber (resolutionTimeRemaining (calculateSLA zone now t)) 1 \<and> \<not> isEscalated t
                 \<and> escalationLevel t < length (getEscalationRules db (department t))
                 \<longrightarrow> (\<exists>t'. getTicketById (fst (checkSLABreaches zone now db)) (ticketId t) = Some t'
                        \<and> status t' = ESCALATED \<and> isEscalated t'
                        \<and> escalationLevel t' = Suc (escalationLevel t)
                        \<and> length (escalationHistory t') = Suc (length (escalationHistory t))))
         else getTicketById (fst (checkSLABreaches zone now db)) (ticketId t) = Some t
            \<and> (\<forall>k. SLAWarning (ticketId t) k \<notin> set (snd (checkSLABreaches zone now db)))
            \<and> (\<forall>e. EscalationFailed (ticketId t) e \<notin> set (snd (checkSLABreaches zone now db)))"
proof (cases "status t = OPEN \<or> status t = IN_PROGRESS")
  case True
  then have topen: "t \<in> set (openTickets db)"
    using assms(2) by (simp add: openTickets_member)
  have only: "x = t" if "x \<in> set (openTickets db)" and "ticketId t = ticketId x" for x
    using that same_id_same_ticket [OF assms(1) _ assms(2), of x] by (simp add: openTickets_member)
  have w1: "SLAWarning (ticketId t) ResponseWarning \<in> set (snd (checkSLABreaches zone now db))
                 \<longleftrightarrow> leNumber (responseTimeRemaining (calculateSLA zone now t)) (1 / 2) \<and> responses t = []"
    unfolding checkSLABreaches_def sweepLoop_warning using topen only by auto
  have w2: "SLAWarning (ticketId t) ResolutionWarning \<in> set (snd (checkSLABreaches zone now db))
                 \<longleftrightarrow> leNumber (resolutionTimeRemaining (calculateSLA zone now t)) 2 \<and> resolvedAt t = None"
    unfolding checkSLABreaches_def sweepLoop_warning using topen only by auto
  have e: "\<exists>t'. getTicketById (fst (checkSLABreaches zone now db)) (ticketId t) = Some t'
                        \<and> status t' = ESCALATED \<and> isEscalated t'
                        \<and> escalationLevel t' = Suc (escalationLevel t)
                        \<and> length (escalationHistory t') = Suc (length (escalationHistory t))"
    if "leNumber (resolutionTimeRemaining (calculateSLA zone now t)) 1" and "\<not> isEscalated t"
      and "escalationLevel t < length (getEscalationRules db (department t))"
    unfolding checkSLABreaches_def
    by (rule sweepLoop_escalates [OF openTickets_distinct [OF assms(1)] topen
          getTicketById_member [OF assms] that])
  show ?thesis using True w1 w2 e by simp
next
  case False
  have notopen: "ticketId x \<noteq> ticketId t" if "x \<in> set (openTickets db)" for x
  proof
    assume i: "ticketId x = ticketId t"
    have "x \<in> set (tickets db)" and o: "status x = OPEN \<or> status x = IN_PROGRESS"
      using that by (simp_all add: openTickets_member)
    then have "x = t"
      using same_id_same_ticket [OF assms(1) _ assms(2), of x] i by simp
    then show False using o False by simp
  qed
  have "getTicketById (fst (sweepLoop zone now (openTickets db) db [])) (ticketId t)
          = getTicketById db (ticketId t)"
    by (rule sweepLoop_lookup) (use notopen in auto)
  then have keep: "getTicketById (fst (checkSLABreaches zone now db)) (ticketId t) = Some t"
    by (simp add: checkSLABreaches_def getTicketById_member [OF assms])
  have nowarn: "SLAWarning (ticketId t) k \<notin> set (snd (checkSLABreaches zone now db))" for k
    unfolding checkSLABreaches_def sweepLoop_warning using notopen by fastforce
  have nofail: "EscalationFailed (ticketId t) e \<notin> set (snd (checkSLABreaches zone now db))" for e
    unfolding checkSLABreaches_def
    using sweepLoop_failed [of "ticketId t" e zone now "openTickets db" db "[]"] notopen
    by fastforce
  show ?thesis using False keep nowarn nofail by simp
qed

theorem sweep_evaluates_open_and_in_progress_only_witness:
  "distinct (map ticketId (tickets mixedDb))
   \<and> exampleTicket \<in> set (tickets mixedDb) \<and> status exampleTicket = OPEN
   \<and> onHoldTicket \<in> set (tickets mixedDb) \<and> status onHoldTicket = ON_HOLD
   \<and> SLAWarning ''t1'' ResponseWarning \<in> set (snd (checkSLABreaches utcZone 360000000 mixedDb))
   \<and> SLAWarning ''t1'' ResolutionWarning \<in> set (snd (checkSLABreaches utcZone 360000000 mixedDb))
   \<and> map_option status (getTicketById (fst (checkSLABreaches utcZone 360000000 mixedDb)) ''t1'')
       = Some ESCALATED
   \<and> map_option escalationLevel (getTicketById (fst (checkSLABreaches utcZone 360000000 mixedDb)) ''t1'')
       = Some 1
   \<and> getTicketById (fst (checkSLABreaches utcZone 360000000 mixedDb)) ''t2'' = Some onHoldTicket
   \<and> SLAWarning ''t2'' ResolutionWarning \<notin> set (snd (checkSLABreaches utcZone 360000000 mixedDb))"
proof -
  have h1: "distinct (map ticketId (tickets mixedDb))"
    by code_simp
  have h2: "exampleTicket \<in> set (tickets mixedDb)"
    by (simp add: mixedDb_def exampleDb_def)
  have h3: "onHoldTicket \<in> set (tickets mixedDb)"
    by (simp add: mixedDb_def exampleDb_def)
  have s1: "status exampleTicket = OPEN" and i1: "ticketId exampleTicket = ''t1''"
    and e1: "\<not> isEscalated exampleTicket" and l1: "escalationLevel exampleTicket = 0"
    and n1: "responses exampleTicket = []" and v1: "resolvedAt exampleTicket = None"
    by (simp_all add: exampleTicket_def)
  have s2: "status onHoldTicket = ON_HOLD" and i2: "ticketId onHoldTicket = ''t2''"
    by (simp_all add: onHoldTicket_def exampleTicket_def)
  have r1: "resolutionTimeRemaining (calculateSLA utcZone 360000000 exampleTicket) = Some 0"
    by code_simp
  have r2: "responseTimeRemaining (calculateSLA utcZone 360000000 exampleTicket) = Some 0"
    by code_simp
  have g: "length (getEscalationRules mixedDb (department exampleTicket)) = 2"
    by code_simp
  show ?thesis
    using h1 h2 h3
      sweep_evaluates_open_and_in_progress_only [OF h1 h2, of utcZone 360000000]
      sweep_evaluates_open_and_in_progress_only [OF h1 h3, of utcZone 360000000]
    by (auto simp add: s1 i1 e1 l1 n1 v1 s2 i2 r1 r2 g leNumber_def)
qed

text \<open>
  The claim as stated fails: a ticket \<open>ON_HOLD\<close>, which is not a terminal status, that
  is past its resolution deadline, not escalated, unresolved and without a response is
  not evaluated; the sweep changes nothing and sends nothing.
\<close>

theorem on_hold_not_swept_counterexample:
  "status onHoldTicket = ON_HOLD
   \<and> resolutionTimeRemaining (calculateSLA utcZone 360000000 onHoldTicket) = Some 0
   \<and> responseTimeRemaining (calculateSLA utcZone 360000000 onHoldTicket) = Some 0
   \<and> isEscalated onHoldTicket = False
   \<and> resolvedAt onHoldTicket = None
   \<and> responses onHoldTicket = []
   \<and> checkSLABreaches utcZone 360000000 (exampleDb [onHoldTicket]) = (exampleDb [onHoldTicket], [])"
  by code_simp

text \<open>
  C10. In the SLA calculation the first entry of the \<open>responses\<close> list counts as the
  first response, automated or not: \<open>isWithinResponseSLA\<close> is whether its \<open>sentAt\<close> is at
  or before the response deadline, whatever the current time and the later entries.
  Ticket creation stores the new ticket with exactly one response, the automated reply,
  sent by \<open>system\<close> at the time of the reply. And the sweep sends no response warning for
  a ticket whose \<open>responses\<close> list is not empty.
\<close>

theorem auto_response_counts_as_first_response:
  "(responses t = r # rs \<longrightarrow>
      isWithinResponseSLA (calculateSLA zone now t)
        = dateLe (sentAt r) (responseDeadline (calculateSLA zone now t)))
   \<and> (newId \<notin> ticketId ` set (tickets db) \<longrightarrow>
        (\<exists>t' r'. getTicketById (fst (createTicket db now0 nowReply newId cat data)) newId = Some t'
           \<and> responses t' = [r'] \<and> isAutomated r' \<and> sentBy r' = ''system''
           \<and> sentAt r' = nowReply))
   \<and> (distinct (map ticketId (tickets db)) \<and> t \<in> set (tickets db) \<and> responses t \<noteq> [] \<longrightarrow>
        SLAWarning (ticketId t) ResponseWarning \<notin> set (snd (checkSLABreaches zone now db)))"
proof (intro conjI impI)
  assume "responses t = r # rs"
  then show "isWithinResponseSLA (calculateSLA zone now t)
        = dateLe (sentAt r) (responseDeadline (calculateSLA zone now t))"
    by (simp add: calculateSLA_def Let_def)
next
  assume "newId \<notin> ticketId ` set (tickets db)"
  from createTicket_lookup [OF this, of now0 nowReply cat data]
  show "\<exists>t' r'. getTicketById (fst (createTicket db now0 nowReply newId cat data)) newId = Some t'
           \<and> responses t' = [r'] \<and> isAutomated r' \<and> sentBy r' = ''system''
           \<and> sentAt r' = nowReply"
    by blast
next
  assume a: "distinct (map ticketId (tickets db)) \<and> t \<in> set (tickets db) \<and> responses t \<noteq> []"
  have "x = t" if "x \<in> set (openTickets db)" and "ticketId t = ticketId x" for x
    using that a same_id_same_ticket [of "tickets db" x t] by (simp add: openTickets_member)
  then show "SLAWarning (ticketId t) ResponseWarning \<notin> set (snd (checkSLABreaches zone now db))"
    unfolding checkSLABreaches_def sweepLoop_warning using a by auto
qed

theorem auto_response_counts_as_first_response_witness:
  "''t9'' \<notin> ticketId ` set (tickets (exampleDb [exampleTicket]))
   \<and> distinct (map ticketId (tickets createdDb))
   \<and> hd (tl (tickets createdDb)) \<in> set (tickets createdDb)
   \<and> ticketId (hd (tl (tickets createdDb))) = ''t9''
   \<and> map isAutomated (responses (hd (tl (tickets createdDb)))) = [True]
   \<and> map sentAt (responses (hd (tl (tickets createdDb)))) = [11]
   \<and> responseDeadline (calculateSLA utcZone 360000000 (hd (tl (tickets createdDb)))) = Some 7200010
   \<and> isWithinResponseSLA (calculateSLA utcZone 360000000 (hd (tl (tickets createdDb))))
   \<and> SLAWarning ''t9'' ResponseWarning \<notin> set (snd (checkSLABreaches utcZone 360000000 createdDb))
   \<and> (\<exists>t' r'. getTicketById createdDb ''t9'' = Some t' \<and> responses t' = [r'] \<and> isAutomated r'
         \<and> sentBy r' = ''system'' \<and> sentAt r' = 11)"
proof -
  have h1: "''t9'' \<notin> ticketId ` set (tickets (exampleDb [exampleTicket]))"
    by (simp add: exampleDb_def exampleTicket_def)
  have h2: "distinct (map ticketId (tickets createdDb))"
    by code_simp
  have h3: "hd (tl (tickets createdDb)) \<in> set (tickets createdDb)"
    by code_simp
  have h4: "responses (hd (tl (tickets createdDb)))
              = hd (responses (hd (tl (tickets createdDb)))) # []"
    by code_simp
  have h5: "ticketId (hd (tl (tickets createdDb))) = ''t9''"
    by code_simp
  have h6: "map isAutomated (responses (hd (tl (tickets createdDb)))) = [True]"
    by code_simp
  have h7: "map sentAt (responses (hd (tl (tickets createdDb)))) = [11]"
    by code_simp
  have h8: "responseDeadline (calculateSLA utcZone 360000000 (hd (tl (tickets createdDb)))) = Some 7200010"
    by code_simp
  have h9: "sentAt (hd (responses (hd (tl (tickets createdDb))))) = 11"
    by code_simp
  let ?T = "hd (tl (tickets createdDb))"
  let ?R = "hd (responses (hd (tl (tickets createdDb))))"
  note made = auto_response_counts_as_first_response [of ?T ?R "[]" utcZone 360000000 "''t9''"
      "exampleDb [exampleTicket]" 10 11 exampleClassifier exampleData]
  note swept = auto_response_counts_as_first_response [of ?T ?R "[]" utcZone 360000000 "''t9''"
      createdDb 10 11 exampleClassifier exampleData]
  from swept have "responses ?T = [?R] \<longrightarrow>
      isWithinResponseSLA (calculateSLA utcZone 360000000 ?T)
        = dateLe (sentAt ?R) (responseDeadline (calculateSLA utcZone 360000000 ?T))"
    by (rule conjunct1)
  with h4 have "isWithinResponseSLA (calculateSLA utcZone 360000000 ?T)
        = dateLe (sentAt ?R) (responseDeadline (calculateSLA utcZone 360000000 ?T))"
    by (rule rev_mp)
  then have w1: "isWithinResponseSLA (calculateSLA utcZone 360000000 ?T)"
    by (simp add: h8 h9 dateLe_def)
  have ne: "responses ?T \<noteq> []"
    by (subst h4) simp
  from swept have "distinct (map ticketId (tickets createdDb)) \<and> ?T \<in> set (tickets createdDb)
        \<and> responses ?T \<noteq> [] \<longrightarrow>
        SLAWarning (ticketId ?T) ResponseWarning \<notin> set (snd (checkSLABreaches utcZone 360000000 createdDb))"
    by (rule conjunct2 [THEN conjunct2])
  then have "SLAWarning (ticketId ?T) ResponseWarning \<notin> set (snd (checkSLABreaches utcZone 360000000 createdDb))"
    using h2 h3 ne by (simp only: simp_thms)
  then have w2: "SLAWarning ''t9'' ResponseWarning \<notin> set (snd (checkSLABreaches utcZone 360000000 createdDb))"
    by (simp only: h5 simp_thms)
  from made have "''t9'' \<notin> ticketId ` set (tickets (exampleDb [exampleTicket])) \<longrightarrow>
        (\<exists>t' r'. getTicketById (fst (createTicket (exampleDb [exampleTicket]) 10 11 ''t9''
                     exampleClassifier exampleData)) ''t9'' = Some t'
           \<and> responses t' = [r'] \<and> isAutomated r' \<and> sentBy r' = ''system''
           \<and> sentAt r' = 11)"
    by (rule conjunct2 [THEN conjunct1])
  with h1 have "\<exists>t' r'. getTicketById (fst (createTicket (exampleDb [exampleTicket]) 10 11 ''t9''
                     exampleClassifier exampleData)) ''t9'' = Some t'
           \<and> responses t' = [r'] \<and> isAutomated r' \<and> sentBy r' = ''system''
           \<and> sentAt r' = 11"
    by (rule rev_mp)
  then have w3: "\<exists>t' r'. getTicketById createdDb ''t9'' = Some t' \<and> responses t' = [r'] \<and> isAutomated r'
         \<and> sentBy r' = ''system'' \<and> sentAt r' = 11"
    by (simp only: createdDb_def [symmetric] simp_thms)
  show ?thesis
    using h1 h2 h3 h5 h6 h7 h8 w1 w2 w3 by (simp only: simp_thms)
qed

end
